theory Spec2Isabelle
  imports Main "HOL-Library.Sublist"
begin

section \<open>House price prediction: the session of \<open>model.py\<close> and \<open>main.py\<close>\<close>

text \<open>
  The class \<open>HousePriceModel\<close> keeps its state in fields of \<open>self\<close> and talks to a
  console, a CSV file and a text log. The embedding passes one record, \<open>session\<close>,
  holding the fields of \<open>self\<close> and the part of the environment the methods touch.
  Every method returns a pair: what the call did (\<open>Inr\<close> the returned value, \<open>Inl\<close> the
  exception that left the method) and the session afterwards, so that effects made
  before an exception stay visible.

  Strings are byte strings restricted to ASCII text. Floating-point values, the cells of
  the table and the fitted regression are values of the type parameters \<open>'f\<close>, \<open>'d\<close> and
  \<open>'m\<close>: pandas, scikit-learn and the interpreter's float formatting are taken as the
  fields of the record \<open>runtime\<close>.
\<close>

subsection \<open>Strings\<close>

definition LF :: char where "LF = CHR 0x0A"
definition CR :: char where "CR = CHR 0x0D"

definition is_space :: "char \<Rightarrow> bool" where
  \<comment> \<open>\<open>str.isspace\<close> on ASCII: tab, line feed, VT, FF, CR, FS, GS, RS, US and space\<close>
  "is_space c = (let n = (of_char c :: nat) in (9 \<le> n \<and> n \<le> 13) \<or> (28 \<le> n \<and> n \<le> 32))"

definition is_digit :: "char \<Rightarrow> bool" where
  "is_digit c = (let n = (of_char c :: nat) in 48 \<le> n \<and> n \<le> 57)"

definition digit_val :: "char \<Rightarrow> nat" where
  "digit_val c = of_char c - 48"

definition strip :: "string \<Rightarrow> string" where
  \<comment> \<open>\<open>s.strip()\<close>\<close>
  "strip s = rev (dropWhile is_space (rev (dropWhile is_space s)))"

fun split_sep :: "char \<Rightarrow> string \<Rightarrow> string list" where
  \<comment> \<open>\<open>s.split(c)\<close> for a one-character separator\<close>
  "split_sep c [] = [[]]"
| "split_sep c (x # xs) =
     (if x = c then [] # split_sep c xs
      else (case split_sep c xs of [] \<Rightarrow> [[x]] | t # ts \<Rightarrow> (x # t) # ts))"

fun join_sep :: "string \<Rightarrow> string list \<Rightarrow> string" where
  \<comment> \<open>\<open>sep.join(parts)\<close>\<close>
  "join_sep sep [] = []"
| "join_sep sep [p] = p"
| "join_sep sep (p # q # ps) = p @ sep @ join_sep sep (q # ps)"

definition digit_char :: "nat \<Rightarrow> char" where
  "digit_char d = char_of (48 + d)"

fun str_nat :: "nat \<Rightarrow> string" where
  \<comment> \<open>\<open>str(n)\<close> for a non-negative integer\<close>
  "str_nat n = (if n < 10 then [digit_char n] else str_nat (n div 10) @ [digit_char (n mod 10)])"

declare str_nat.simps [simp del]

definition rjust2 :: "string \<Rightarrow> string" where
  \<comment> \<open>the format \<open>{i:>2}\<close>\<close>
  "rjust2 s = replicate (2 - length s) CHR '' '' @ s"

subsection \<open>Exceptions\<close>

datatype py_error = ValueError | IndexError | KeyError | EOFError | FileNotFoundError
  | AttributeError | NotFittedError | OtherError string

subsection \<open>\<open>int(text)\<close>\<close>

fun scan_digits :: "bool \<Rightarrow> string \<Rightarrow> nat list option" where
  \<comment> \<open>decimal digits, a single underscore allowed between two digits; the flag says
      that the previous character was a digit\<close>
  "scan_digits prev [] = (if prev then Some [] else None)"
| "scan_digits prev (c # cs) =
     (if is_digit c then map_option (Cons (digit_val c)) (scan_digits True cs)
      else if c = CHR ''_'' \<and> prev then scan_digits False cs
      else None)"

definition digits_value :: "nat list \<Rightarrow> int" where
  "digits_value ds = foldl (\<lambda>acc d. 10 * acc + int d) 0 ds"

definition py_int :: "nat \<Rightarrow> string \<Rightarrow> py_error + int" where
  \<comment> \<open>\<open>int(s)\<close> in base 10. The first argument is the interpreter's limit on the number
      of digits of a converted string (\<open>sys.get_int_max_str_digits()\<close>, 0 for none); it
      applies above 640 digits only.\<close>
  "py_int lim s =
     (let t = strip s;
          neg = (t \<noteq> [] \<and> hd t = CHR ''-'');
          body = (if t \<noteq> [] \<and> (hd t = CHR ''-'' \<or> hd t = CHR ''+'') then tl t else t)
      in case scan_digits False body of
           None \<Rightarrow> Inl ValueError
         | Some ds \<Rightarrow>
             if 640 < length ds \<and> 0 < lim \<and> lim < length ds then Inl ValueError
             else Inr (if neg then - digits_value ds else digits_value ds))"

fun parse_indices :: "nat \<Rightarrow> string list \<Rightarrow> py_error + int list" where
  \<comment> \<open>\<open>[int(x.strip()) for x in tokens]\<close>: the first token that fails raises\<close>
  "parse_indices lim [] = Inr []"
| "parse_indices lim (x # xs) =
     (case py_int lim (strip x) of
        Inl e \<Rightarrow> Inl e
      | Inr i \<Rightarrow> (case parse_indices lim xs of Inl e \<Rightarrow> Inl e | Inr is \<Rightarrow> Inr (i # is)))"

definition py_index :: "'a list \<Rightarrow> int \<Rightarrow> py_error + 'a" where
  \<comment> \<open>the subscript \<open>xs[i]\<close> of a Python list: \<open>-1\<close> is the last element, and
      IndexError is raised beyond either end\<close>
  "py_index xs i =
     (if int (length xs) \<le> i \<or> i < - int (length xs) then Inl IndexError
      else if 0 \<le> i then Inr (xs ! nat i)
      else Inr (xs ! nat (int (length xs) + i)))"

fun pick_columns :: "'a list \<Rightarrow> int list \<Rightarrow> py_error + 'a list" where
  \<comment> \<open>\<open>[available[i - 1] for i in indices if 1 <= i <= len(available)]\<close>\<close>
  "pick_columns available [] = Inr []"
| "pick_columns available (i # is) =
     (if 1 \<le> i \<and> i \<le> int (length available) then
        (case py_index available (i - 1) of
           Inl e \<Rightarrow> Inl e
         | Inr c \<Rightarrow> (case pick_columns available is of Inl e \<Rightarrow> Inl e | Inr cs \<Rightarrow> Inr (c # cs)))
      else pick_columns available is)"

subsection \<open>The table, the runtime and the session\<close>

record 'd dataframe =
  columns :: "(string \<times> bool) list"  \<comment> \<open>column names in order, each with "has a numeric dtype"\<close>
  nrows :: nat
  cells :: 'd

record ('f, 'd, 'm) runtime =
  int_max_str_digits :: nat
  float_of_str :: "string \<Rightarrow> 'f option"  \<comment> \<open>\<open>float(s)\<close>, \<open>None\<close> for ValueError\<close>
  str_of_float :: "'f \<Rightarrow> string"  \<comment> \<open>\<open>{v}\<close> in an f-string\<close>
  fmt_price :: "'f \<Rightarrow> string"  \<comment> \<open>\<open>{x:,.2f}\<close>\<close>
  fmt_r2 :: "'f \<Rightarrow> string"  \<comment> \<open>\<open>{x:.4f}\<close>\<close>
  repr_names :: "string list \<Rightarrow> string"  \<comment> \<open>\<open>{names}\<close> for a list of strings\<close>
  head_to_string :: "'d dataframe \<Rightarrow> string"  \<comment> \<open>\<open>df.head().to_string(index=False)\<close>\<close>
  sk_split :: "'d dataframe \<Rightarrow> string list \<Rightarrow> py_error + ('d \<times> 'd)"
    \<comment> \<open>\<open>train_test_split(X, y, test_size=0.2, random_state=42)\<close> for the table and the
        feature columns: the training part and the holdout part\<close>
  sk_fit :: "'d \<Rightarrow> py_error + 'm"  \<comment> \<open>\<open>LinearRegression().fit(X_train, y_train)\<close>\<close>
  sk_score :: "'m \<Rightarrow> 'd \<Rightarrow> py_error + 'f"  \<comment> \<open>\<open>r2_score(y_test, model.predict(X_test))\<close>\<close>
  sk_predict :: "'m \<Rightarrow> (string \<times> 'f) list \<Rightarrow> py_error + 'f"
    \<comment> \<open>\<open>model.predict(pd.DataFrame([values]))[0]\<close>\<close>

datatype 'm estimator = Unfitted | Fitted 'm

record ('f, 'd, 'm) session =
  csv_path :: string
  data_file :: string
  df :: "'d dataframe option"
  model :: "'m estimator option"
  features :: "string list"
  r2 :: "'f option"
  is_trained :: bool
  read_csv :: "string \<Rightarrow> py_error + 'd dataframe"  \<comment> \<open>what \<open>pd.read_csv(path)\<close> gives\<close>
  csv_reads :: nat  \<comment> \<open>how many times \<open>pd.read_csv\<close> was called\<close>
  files :: "string \<Rightarrow> string option"  \<comment> \<open>the text files, \<open>None\<close> where there is none\<close>
  clock :: "nat \<Rightarrow> string"  \<comment> \<open>the k-th reading of \<open>datetime.now()\<close>, formatted\<close>
  ticks :: nat
  stdin :: "string list"  \<comment> \<open>the lines still to be typed\<close>
  stdout :: "string list"  \<comment> \<open>what was printed, one entry per call\<close>

type_synonym ('a, 'f, 'd, 'm) call = "(py_error + 'a) \<times> ('f, 'd, 'm) session"

definition DEFAULT_FEATURES :: "string list" where
  "DEFAULT_FEATURES =
     [''bedrooms'', ''bathrooms'', ''sqft_living'', ''sqft_lot'', ''floors'',
      ''waterfront'', ''view'', ''condition'', ''grade'', ''yr_built'']"

definition init :: "(string \<Rightarrow> py_error + 'd dataframe) \<Rightarrow> (string \<Rightarrow> string option) \<Rightarrow>
    (nat \<Rightarrow> string) \<Rightarrow> string list \<Rightarrow> ('f, 'd, 'm) session" where
  \<comment> \<open>\<open>HousePriceModel()\<close> in a given environment\<close>
  "init rd fs clk inp =
     \<lparr> csv_path = ''kc_house_data.csv'', data_file = ''data.txt'', df = None, model = None,
       features = DEFAULT_FEATURES, r2 = None, is_trained = False,
       read_csv = rd, csv_reads = 0, files = fs, clock = clk, ticks = 0,
       stdin = inp, stdout = [] \<rparr>"

definition py_print :: "string \<Rightarrow> ('f, 'd, 'm) session \<Rightarrow> ('f, 'd, 'm) session" where
  "py_print text s = s\<lparr>stdout := stdout s @ [text]\<rparr>"

definition py_input :: "string \<Rightarrow> ('f, 'd, 'm) session \<Rightarrow> (string, 'f, 'd, 'm) call" where
  \<comment> \<open>\<open>input(prompt)\<close>: end of input raises EOFError\<close>
  "py_input prompt s =
     (let s1 = py_print prompt s
      in case stdin s1 of
           [] \<Rightarrow> (Inl EOFError, s1)
         | l # ls \<Rightarrow> (Inr l, s1\<lparr>stdin := ls\<rparr>))"

definition rule60 :: "char \<Rightarrow> string" where
  "rule60 c = replicate 60 c"

definition banner :: string where
  \<comment> \<open>\<open>"\n" + "=" * 60\<close>\<close>
  "banner = LF # rule60 CHR ''=''"

subsection \<open>Dataset operations\<close>

definition load_dataset :: "('f, 'd, 'm) session \<Rightarrow> ('d dataframe, 'f, 'd, 'm) call" where
  "load_dataset s =
     (let s1 = s\<lparr>csv_reads := Suc (csv_reads s)\<rparr>
      in case read_csv s (csv_path s) of
           Inl e \<Rightarrow> (Inl e, s1)
         | Inr t \<Rightarrow> (Inr t, s1\<lparr>df := Some t\<rparr>))"

definition ensure_loaded :: "('f, 'd, 'm) session \<Rightarrow> ('d dataframe, 'f, 'd, 'm) call" where
  \<comment> \<open>\<open>if self.df is None: self.load_dataset()\<close>, then \<open>self.df\<close>\<close>
  "ensure_loaded s = (case df s of None \<Rightarrow> load_dataset s | Some t \<Rightarrow> (Inr t, s))"

fun print_numbered :: "nat \<Rightarrow> string list \<Rightarrow> ('f, 'd, 'm) session \<Rightarrow> ('f, 'd, 'm) session" where
  \<comment> \<open>\<open>for i, col in enumerate(names, i0): print(f"    {i:>2}. {col}")\<close>\<close>
  "print_numbered i [] s = s"
| "print_numbered i (c # cs) s =
     print_numbered (Suc i) cs
       (py_print (''    '' @ rjust2 (str_nat i) @ ''. '' @ c) s)"

definition display_dataset_info ::
    "('f, 'd, 'm) runtime \<Rightarrow> ('f, 'd, 'm) session \<Rightarrow> (unit, 'f, 'd, 'm) call" where
  "display_dataset_info rt s =
     (case ensure_loaded s of
        (Inl e, s1) \<Rightarrow> (Inl e, s1)
      | (Inr t, s1) \<Rightarrow>
          (let s2 = py_print banner s1;
               s3 = py_print ''            KC HOUSE DATASET INFORMATION'' s2;
               s4 = py_print (rule60 CHR ''='') s3;
               s5 = py_print (''  Rows    : '' @ str_nat (nrows t)) s4;
               s6 = py_print (''  Columns : '' @ str_nat (length (columns t))) s5;
               s7 = py_print (rule60 CHR ''-'') s6;
               s8 = py_print ''  Column Names:'' s7;
               s9 = print_numbered 1 (map fst (columns t)) s8;
               s10 = py_print (rule60 CHR ''-'') s9;
               s11 = py_print ''  First 5 rows:'' s10;
               s12 = py_print (head_to_string rt t) s11
           in (Inr (), py_print (rule60 CHR ''='') s12)))"

subsection \<open>Feature selection\<close>

definition exclude :: "string list" where
  "exclude = [''id'', ''date'', ''price'']"

definition numeric_columns :: "'d dataframe \<Rightarrow> string list" where
  \<comment> \<open>\<open>[c for c in df.select_dtypes(include='number').columns if c not in exclude]\<close>\<close>
  "numeric_columns t = filter (\<lambda>c. c \<notin> set exclude) (map fst (filter snd (columns t)))"

definition get_numeric_columns :: "('f, 'd, 'm) session \<Rightarrow> (string list, 'f, 'd, 'm) call" where
  "get_numeric_columns s =
     (case ensure_loaded s of
        (Inl e, s1) \<Rightarrow> (Inl e, s1)
      | (Inr t, s1) \<Rightarrow> (Inr (numeric_columns t), s1))"

fun print_available :: "nat \<Rightarrow> string list \<Rightarrow> ('f, 'd, 'm) session \<Rightarrow> ('f, 'd, 'm) session" where
  \<comment> \<open>the loop listing the available columns, a star after a default feature\<close>
  "print_available i [] s = s"
| "print_available i (c # cs) s =
     print_available (Suc i) cs
       (py_print (''    '' @ rjust2 (str_nat i) @ ''. '' @ c
                  @ (if c \<in> set DEFAULT_FEATURES then '' *'' else '''')) s)"

definition em_dash :: string where
  "em_dash = [CHR 0xE2, CHR 0x80, CHR 0x94]"

definition choose_features ::
    "('f, 'd, 'm) runtime \<Rightarrow> string list \<Rightarrow> string \<Rightarrow> ('f, 'd, 'm) session \<Rightarrow> ('f, 'd, 'm) session" where
  \<comment> \<open>the \<open>if user_input == "": ... else: try: ... except (ValueError, IndexError): ...\<close>
      of \<open>select_features\<close>\<close>
  "choose_features rt available user_input s =
     (if user_input = [] then
        (let s1 = s\<lparr>features := DEFAULT_FEATURES\<rparr>
         in py_print (LF # ''  Using default features ('' @ str_nat (length (features s1))
                      @ '' selected).'') s1)
      else
        (case (case parse_indices (int_max_str_digits rt) (split_sep CHR '','' user_input) of
                 Inl e \<Rightarrow> Inl e
               | Inr indices \<Rightarrow> pick_columns available indices) of
           Inr selected \<Rightarrow>
             if selected = [] then
               (py_print (''  No valid columns selected '' @ em_dash @ '' falling back to defaults.'') s)
                 \<lparr>features := DEFAULT_FEATURES\<rparr>
             else
               (let s1 = s\<lparr>features := selected\<rparr>
                in py_print (LF # ''  Selected features: '' @ repr_names rt (features s1)) s1)
         | Inl e \<Rightarrow>
             (py_print (''  Invalid input '' @ em_dash @ '' using default features.'') s)
               \<lparr>features := DEFAULT_FEATURES\<rparr>))"

definition select_features ::
    "('f, 'd, 'm) runtime \<Rightarrow> ('f, 'd, 'm) session \<Rightarrow> (unit, 'f, 'd, 'm) call" where
  "select_features rt s =
     (case get_numeric_columns s of
        (Inl e, s1) \<Rightarrow> (Inl e, s1)
      | (Inr available, s1) \<Rightarrow>
          (let s2 = py_print banner s1;
               s3 = py_print ''           FEATURE SELECTION'' s2;
               s4 = py_print (rule60 CHR ''='') s3;
               s5 = py_print ''  Available numeric columns:'' s4;
               s6 = print_available 1 available s5;
               s7 = py_print ''  (* = default feature)'' s6;
               s8 = py_print (rule60 CHR ''-'') s7;
               s9 = py_print ''  Enter column numbers separated by commas'' s8;
               s10 = py_print ''  (or press Enter to use defaults):'' s9
           in case py_input ''  >> '' s10 of
                (Inl e, s11) \<Rightarrow> (Inl e, s11)
              | (Inr line, s11) \<Rightarrow>
                  (let s12 = choose_features rt available (strip line) s11;
                       s13 = s12\<lparr>is_trained := False\<rparr>
                   in (Inr (), py_print (rule60 CHR ''='') s13))))"

subsection \<open>Training\<close>

definition display_r_squared ::
    "('f, 'd, 'm) runtime \<Rightarrow> ('f, 'd, 'm) session \<Rightarrow> (unit, 'f, 'd, 'm) call" where
  \<comment> \<open>formatting \<open>self.r2\<close> while it is \<open>None\<close> raises TypeError\<close>
  "display_r_squared rt s =
     (let s1 = py_print banner s;
          s2 = py_print ''           MODEL EVALUATION'' s1;
          s3 = py_print (rule60 CHR ''='') s2;
          s4 = py_print (''  Features used : '' @ repr_names rt (features s3)) s3
      in case r2 s4 of
           None \<Rightarrow> (Inl (OtherError ''TypeError''), s4)
         | Some x \<Rightarrow>
             (Inr (), py_print (rule60 CHR ''='')
                        (py_print (''  R-squared     : '' @ fmt_r2 rt x) s4)))"

definition train_model ::
    "('f, 'd, 'm) runtime \<Rightarrow> ('f, 'd, 'm) session \<Rightarrow> (unit, 'f, 'd, 'm) call" where
  \<comment> \<open>\<open>train_model()\<close> with its default arguments, as \<open>main\<close> calls it. Selecting a column
      the table does not have raises KeyError.\<close>
  "train_model rt s =
     (case ensure_loaded s of
        (Inl e, s1) \<Rightarrow> (Inl e, s1)
      | (Inr t, s1) \<Rightarrow>
          if \<not> set (features s1) \<subseteq> fst ` set (columns t) then (Inl KeyError, s1)
          else if ''price'' \<notin> fst ` set (columns t) then (Inl KeyError, s1)
          else
            (case sk_split rt t (features s1) of
               Inl e \<Rightarrow> (Inl e, s1)
             | Inr (train, holdout) \<Rightarrow>
                 (let s2 = s1\<lparr>model := Some Unfitted\<rparr>
                  in case sk_fit rt train of
                       Inl e \<Rightarrow> (Inl e, s2)
                     | Inr m \<Rightarrow>
                         (let s3 = s2\<lparr>model := Some (Fitted m)\<rparr>
                          in case sk_score rt m holdout of
                               Inl e \<Rightarrow> (Inl e, s3)
                             | Inr x \<Rightarrow>
                                 display_r_squared rt (s3\<lparr>r2 := Some x, is_trained := True\<rparr>)))))"

subsection \<open>The prediction log\<close>

definition check_mark :: string where
  "check_mark = [CHR 0xE2, CHR 0x9C, CHR 0x93]"

definition features_str :: "('f, 'd, 'm) runtime \<Rightarrow> (string \<times> 'f) list \<Rightarrow> string" where
  \<comment> \<open>\<open>", ".join(f"{k}={v}" for k, v in input_values.items())\<close>\<close>
  "features_str rt input_values =
     join_sep '', '' (map (\<lambda>(k, v). k @ ''='' @ str_of_float rt v) input_values)"

definition log_line :: "('f, 'd, 'm) runtime \<Rightarrow> string \<Rightarrow> (string \<times> 'f) list \<Rightarrow> 'f \<Rightarrow> string" where
  \<comment> \<open>the line of \<open>save_prediction\<close> without its final line feed\<close>
  "log_line rt timestamp input_values predicted_price =
     timestamp @ '' | '' @ features_str rt input_values
       @ '' | Predicted: $'' @ fmt_price rt predicted_price"

definition append_file :: "string \<Rightarrow> string \<Rightarrow> (string \<Rightarrow> string option) \<Rightarrow> (string \<Rightarrow> string option)" where
  \<comment> \<open>\<open>open(path, 'a')\<close> and \<open>write(text)\<close>: the file is created when there is none\<close>
  "append_file path text fs =
     fs(path := Some ((case fs path of None \<Rightarrow> [] | Some c \<Rightarrow> c) @ text))"

definition save_prediction ::
    "('f, 'd, 'm) runtime \<Rightarrow> (string \<times> 'f) list \<Rightarrow> 'f \<Rightarrow> ('f, 'd, 'm) session \<Rightarrow> ('f, 'd, 'm) session" where
  "save_prediction rt input_values predicted_price s =
     (let timestamp = clock s (ticks s);
          s1 = s\<lparr>ticks := Suc (ticks s)\<rparr>;
          line = log_line rt timestamp input_values predicted_price @ [LF];
          s2 = s1\<lparr>files := append_file (data_file s1) line (files s1)\<rparr>
      in py_print (''  ['' @ check_mark @ ''] Prediction saved to '' @ data_file s2) s2)"

fun readlines_from :: "string \<Rightarrow> string \<Rightarrow> string list" where
  \<comment> \<open>\<open>f.readlines()\<close> of a file opened in text mode: a line ends at LF, CR or CR LF, each
      read as LF; the first argument is the line read so far\<close>
  "readlines_from cur [] = (if cur = [] then [] else [cur])"
| "readlines_from cur (c # cs) =
     (if c = LF then (cur @ [LF]) # readlines_from [] cs
      else if c = CR then
        (case cs of
           [] \<Rightarrow> [cur @ [LF]]
         | d # ds \<Rightarrow> if d = LF then (cur @ [LF]) # readlines_from [] ds
                     else (cur @ [LF]) # readlines_from [] cs)
      else readlines_from (cur @ [c]) cs)"

definition readlines :: "string \<Rightarrow> string list" where
  "readlines text = readlines_from [] text"

fun print_history :: "nat \<Rightarrow> string list \<Rightarrow> ('f, 'd, 'm) session \<Rightarrow> ('f, 'd, 'm) session" where
  \<comment> \<open>\<open>for i, line in enumerate(lines, i0): print(f"  {i}. {line.strip()}")\<close>\<close>
  "print_history i [] s = s"
| "print_history i (l # ls) s =
     print_history (Suc i) ls (py_print (''  '' @ str_nat i @ ''. '' @ strip l) s)"

definition load_predictions :: "('f, 'd, 'm) session \<Rightarrow> ('f, 'd, 'm) session" where
  "load_predictions s =
     (let s1 = py_print banner s;
          s2 = py_print ''           PREDICTION HISTORY'' s1;
          s3 = py_print (rule60 CHR ''='') s2;
          s4 = (case files s3 (data_file s3) of
                  None \<Rightarrow> py_print ''  No predictions recorded yet.'' s3
                | Some text \<Rightarrow>
                    (let lines = readlines text
                     in if lines = [] then py_print ''  No predictions recorded yet.'' s3
                        else print_history 1 lines s3))
      in py_print (rule60 CHR ''='') s4)"

subsection \<open>Prediction\<close>

fun dict_set :: "('k \<times> 'v) list \<Rightarrow> 'k \<Rightarrow> 'v \<Rightarrow> ('k \<times> 'v) list" where
  \<comment> \<open>\<open>d[k] = v\<close> on a dict, which keeps its keys in the order of their first insertion\<close>
  "dict_set [] k v = [(k, v)]"
| "dict_set (p # ps) k v = (if fst p = k then (k, v) # ps else p # dict_set ps k v)"

function read_value ::
    "('f, 'd, 'm) runtime \<Rightarrow> string \<Rightarrow> ('f, 'd, 'm) session \<Rightarrow> ('f, 'f, 'd, 'm) call" where
  \<comment> \<open>\<open>while True: try: val = float(input(f"    {feat}: ")); break
      except ValueError: print(...)\<close>. Each turn takes a line of the input; at its end
      \<open>input\<close> raises EOFError, which the loop does not catch.\<close>
  "read_value rt feat s =
     (case py_input (''    '' @ feat @ '': '') s of
        (Inl e, s1) \<Rightarrow> (Inl e, s1)
      | (Inr l, s1) \<Rightarrow>
          (case float_of_str rt l of
             Some val \<Rightarrow> (Inr val, s1)
           | None \<Rightarrow> read_value rt feat (py_print ''    Please enter a valid number.'' s1)))"
  by pat_completeness auto
termination
  by (relation "measure (\<lambda>(rt, feat, s). length (stdin s))")
     (auto simp: py_input_def py_print_def Let_def split: list.splits)

fun collect_values ::
    "('f, 'd, 'm) runtime \<Rightarrow> string list \<Rightarrow> (string \<times> 'f) list \<Rightarrow> ('f, 'd, 'm) session
      \<Rightarrow> ((string \<times> 'f) list, 'f, 'd, 'm) call" where
  \<comment> \<open>\<open>for feat in self.features: ... values[feat] = val\<close>\<close>
  "collect_values rt [] vals s = (Inr vals, s)"
| "collect_values rt (feat # feats) vals s =
     (case read_value rt feat s of
        (Inl e, s1) \<Rightarrow> (Inl e, s1)
      | (Inr val, s1) \<Rightarrow> collect_values rt feats (dict_set vals feat val) s1)"

definition model_predict ::
    "('f, 'd, 'm) runtime \<Rightarrow> 'm estimator option \<Rightarrow> (string \<times> 'f) list \<Rightarrow> py_error + 'f" where
  \<comment> \<open>\<open>self.model.predict(pd.DataFrame([values]))[0]\<close>: the row has the keys of the dict
      as columns, in their order\<close>
  "model_predict rt m input_df =
     (case m of
        None \<Rightarrow> Inl AttributeError
      | Some Unfitted \<Rightarrow> Inl NotFittedError
      | Some (Fitted fitted) \<Rightarrow> sk_predict rt fitted input_df)"

definition predict_price ::
    "('f, 'd, 'm) runtime \<Rightarrow> ('f, 'd, 'm) session \<Rightarrow> ('f option, 'f, 'd, 'm) call" where
  "predict_price rt s =
     (if \<not> is_trained s then
        (Inr None, py_print (LF # ''  [!] Model is not trained yet. Please train first.'') s)
      else
        (let s1 = py_print banner s;
             s2 = py_print ''           PREDICT HOUSE PRICE'' s1;
             s3 = py_print (rule60 CHR ''='') s2;
             s4 = py_print (''  Enter values for each feature:'' @ [LF]) s3
         in case collect_values rt (features s4) [] s4 of
              (Inl e, s5) \<Rightarrow> (Inl e, s5)
            | (Inr values, s5) \<Rightarrow>
                (case model_predict rt (model s5) values of
                   Inl e \<Rightarrow> (Inl e, s5)
                 | Inr predicted \<Rightarrow>
                     (let s6 = py_print (rule60 CHR ''-'') s5;
                          s7 = py_print (''  Predicted House Price: $'' @ fmt_price rt predicted) s6;
                          s8 = py_print (rule60 CHR ''='') s7
                      in (Inr (Some predicted), save_prediction rt values predicted s8)))))"

subsection \<open>The menu loop of \<open>main.py\<close>\<close>

definition display_menu :: "('f, 'd, 'm) session \<Rightarrow> ('f, 'd, 'm) session" where
  "display_menu s =
     (let s1 = py_print banner s;
          s2 = py_print ''       HOUSE PRICE PREDICTION SYSTEM'' s1;
          s3 = py_print (''         (KC House Dataset '' @ em_dash @ '' Linear Regression)'') s2;
          s4 = py_print (rule60 CHR ''='') s3;
          s5 = py_print ''  1. Load & Display Dataset Info'' s4;
          s6 = py_print ''  2. Select Feature Columns'' s5;
          s7 = py_print ''  3. Train Model & Display R-squared Score'' s6;
          s8 = py_print ''  4. Predict House Price for New Input'' s7;
          s9 = py_print ''  5. View Prediction History'' s8;
          s10 = py_print ''  6. Exit'' s9
      in py_print (rule60 CHR ''='') s10)"

definition menu_action ::
    "('f, 'd, 'm) runtime \<Rightarrow> string \<Rightarrow> ('f, 'd, 'm) session \<Rightarrow> (unit, 'f, 'd, 'm) call" where
  \<comment> \<open>the branches of the loop body for the choices other than \<open>6\<close>; nothing here
      catches an exception of the method it calls\<close>
  "menu_action rt choice s =
     (if choice = ''1'' then display_dataset_info rt s
      else if choice = ''2'' then select_features rt s
      else if choice = ''3'' then train_model rt s
      else if choice = ''4'' then
        (case predict_price rt s of (Inl e, s1) \<Rightarrow> (Inl e, s1) | (Inr _, s1) \<Rightarrow> (Inr (), s1))
      else if choice = ''5'' then (Inr (), load_predictions s)
      else (Inr (), py_print (LF # ''  [!] Invalid choice. Please enter a number between 1 and 6.'') s))"

function main_loop ::
    "('f, 'd, 'm) runtime \<Rightarrow> ('f, 'd, 'm) session \<Rightarrow> (unit, 'f, 'd, 'm) call" where
  \<comment> \<open>\<open>while True:\<close> of \<open>main\<close>. \<open>Inr ()\<close> is the normal end at choice 6, \<open>Inl e\<close> the
      exception that ends the process with a traceback.\<close>
  "main_loop rt s =
     (case py_input ''  Enter your choice (1-6): '' (display_menu s) of
        (Inl e, s1) \<Rightarrow> (Inl e, s1)
      | (Inr line, s1) \<Rightarrow>
          (let choice = strip line
           in if choice = ''6'' then
                (Inr (), py_print (''  Goodbye!'' @ [LF])
                           (py_print (LF # ''  Thank you for using House Price Prediction System!'') s1))
              else
                (case menu_action rt choice s1 of
                   (Inl e, s2) \<Rightarrow> (Inl e, s2)
                 | (Inr _, s2) \<Rightarrow> main_loop rt s2)))"
  by pat_completeness auto

definition main ::
    "('f, 'd, 'm) runtime \<Rightarrow> (string \<Rightarrow> py_error + 'd dataframe) \<Rightarrow> (string \<Rightarrow> string option) \<Rightarrow>
      (nat \<Rightarrow> string) \<Rightarrow> string list \<Rightarrow> (unit, 'f, 'd, 'm) call" where
  \<comment> \<open>\<open>main()\<close>: a fresh \<open>HousePriceModel()\<close>, then the loop\<close>
  "main rt rd fs clk inp = main_loop rt (init rd fs clk inp)"

subsection \<open>A concrete session\<close>

text \<open>
  The columns of the King County table, and a runtime small enough to evaluate: numbers
  are integers, a fitted model is the list of the column names it was fitted on, and
  inference refuses a row whose columns are not these, as scikit-learn does.
\<close>

definition str_int :: "int \<Rightarrow> string" where
  "str_int i = (if i < 0 then CHR ''-'' # str_nat (nat (- i)) else str_nat (nat i))"

definition kc_columns :: "(string \<times> bool) list" where
  "kc_columns =
     [(''id'', True), (''date'', False), (''price'', True), (''bedrooms'', True),
      (''bathrooms'', True), (''sqft_living'', True), (''sqft_lot'', True), (''floors'', True),
      (''waterfront'', True), (''view'', True), (''condition'', True), (''grade'', True),
      (''sqft_above'', True), (''sqft_basement'', True), (''yr_built'', True),
      (''yr_renovated'', True), (''zipcode'', True), (''lat'', True), (''long'', True),
      (''sqft_living15'', True), (''sqft_lot15'', True)]"

definition kc_table :: "string list dataframe" where
  "kc_table = \<lparr> columns = kc_columns, nrows = 21613, cells = [] \<rparr>"

definition demo_rt :: "(int, string list, string list) runtime" where
  "demo_rt =
     \<lparr> int_max_str_digits = 4300,
       float_of_str = (\<lambda>s. case py_int 0 s of Inl e \<Rightarrow> None | Inr i \<Rightarrow> Some i),
       str_of_float = str_int,
       fmt_price = str_int,
       fmt_r2 = str_int,
       repr_names = join_sep '', '',
       head_to_string = (\<lambda>t. []),
       sk_split = (\<lambda>t names. Inr (names, names)),
       sk_fit = (\<lambda>train. Inr train),
       sk_score = (\<lambda>m holdout. Inr 1),
       sk_predict = (\<lambda>m row. if map fst row = m then Inr (sum_list (map snd row))
                               else Inl ValueError) \<rparr>"

definition kc_csv :: "string \<Rightarrow> py_error + string list dataframe" where
  "kc_csv path = (if path = ''kc_house_data.csv'' then Inr kc_table else Inl FileNotFoundError)"

definition no_csv :: "string \<Rightarrow> py_error + string list dataframe" where
  "no_csv path = Inl FileNotFoundError"

definition demo_clock :: "nat \<Rightarrow> string" where
  "demo_clock k = ''2024-05-01 12:00:00''"

definition no_files :: "string \<Rightarrow> string option" where
  "no_files path = None"

definition demo :: "string list \<Rightarrow> (int, string list, string list) session" where
  \<comment> \<open>a fresh object, the table on disk, no log yet, and the given lines to type\<close>
  "demo inp = init kc_csv no_files demo_clock inp"

definition trained_demo :: "string list \<Rightarrow> (int, string list, string list) session" where
  \<comment> \<open>a session after a successful training on the default features\<close>
  "trained_demo inp = (demo inp)\<lparr>df := Some kc_table, model := Some (Fitted DEFAULT_FEATURES),
      r2 := Some 1, is_trained := True, csv_reads := 1\<rparr>"

definition fitted_on :: "string list \<Rightarrow> string list \<Rightarrow> (int, string list, string list) session" where
  \<comment> \<open>a trained session whose model was fitted on the given feature list\<close>
  "fitted_on names inp = (trained_demo inp)\<lparr>features := names, model := Some (Fitted names)\<rparr>"

definition prompted :: "('f, 'd, 'm) session \<Rightarrow> ('f, 'd, 'm) session" where
  \<comment> \<open>the session of \<open>predict_price\<close> when it starts asking for the values\<close>
  "prompted s =
     py_print (''  Enter values for each feature:'' @ [LF])
       (py_print (rule60 CHR ''='')
         (py_print ''           PREDICT HOUSE PRICE'' (py_print banner s)))"

definition at_menu :: "('f, 'd, 'm) session \<Rightarrow> string list \<Rightarrow> ('f, 'd, 'm) session" where
  \<comment> \<open>the session when the menu has been shown and the choice read, the rest of the input left\<close>
  "at_menu s rest = (py_print ''  Enter your choice (1-6): '' (display_menu s))\<lparr>stdin := rest\<rparr>"

definition loaded_once :: "('f, 'd, 'm) session \<Rightarrow> bool" where
  \<comment> \<open>the table was read at most once, and not at all while none is cached\<close>
  "loaded_once s = (csv_reads s \<le> 1 \<and> (df s = None \<longrightarrow> csv_reads s = 0))"

fun save_all ::
    "('f, 'd, 'm) runtime \<Rightarrow> ((string \<times> 'f) list \<times> 'f) list \<Rightarrow> ('f, 'd, 'm) session
      \<Rightarrow> ('f, 'd, 'm) session" where
  \<comment> \<open>\<open>save_prediction\<close> called for each record of a list, in order\<close>
  "save_all rt [] s = s"
| "save_all rt ((input_values, predicted_price) # rs) s =
     save_all rt rs (save_prediction rt input_values predicted_price s)"

definition log_text :: "('f, 'd, 'm) session \<Rightarrow> string" where
  \<comment> \<open>the content of the log file, empty when there is no file\<close>
  "log_text s = (case files s (data_file s) of None \<Rightarrow> [] | Some text \<Rightarrow> text)"

definition history :: "('f, 'd, 'm) session \<Rightarrow> string list" where
  \<comment> \<open>the \<open>lines\<close> of \<open>load_predictions\<close>: \<open>f.readlines()\<close>, none when FileNotFoundError\<close>
  "history s = (case files s (data_file s) of None \<Rightarrow> [] | Some text \<Rightarrow> readlines text)"

fun log_lines ::
    "('f, 'd, 'm) runtime \<Rightarrow> (nat \<Rightarrow> string) \<Rightarrow> nat \<Rightarrow> ((string \<times> 'f) list \<times> 'f) list
      \<Rightarrow> string list" where
  \<comment> \<open>the lines that \<open>save_all\<close> formats, without their line feeds, the clock read
      from its t-th reading on\<close>
  "log_lines rt clk t [] = []"
| "log_lines rt clk t ((input_values, predicted_price) # rs) =
     log_line rt (clk t) input_values predicted_price # log_lines rt clk (Suc t) rs"

definition no_break :: "string \<Rightarrow> bool" where
  "no_break text = (LF \<notin> set text \<and> CR \<notin> set text)"

text \<open>A log whose last line was left without its line feed.\<close>

definition stale_log :: "string \<Rightarrow> string option" where
  "stale_log path =
     (if path = ''data.txt'' then Some ''2024-04-30 09:00:00 | bedrooms=3 | Predicted: $5''
      else None)"

definition stale_demo :: "(int, string list, string list) session" where
  "stale_demo = (demo [])\<lparr>files := stale_log\<rparr>"

definition fit_fails_rt :: "(int, string list, string list) runtime" where
  \<comment> \<open>the same runtime, but the fit refuses its data, as it does a non-numeric column\<close>
  "fit_fails_rt = demo_rt\<lparr>sk_fit := (\<lambda>train. Inl ValueError)\<rparr>"

section \<open>What the operations leave unchanged\<close>

lemma py_print_fields [simp]:
  "stdin (py_print x s) = stdin s" "features (py_print x s) = features s"
  "is_trained (py_print x s) = is_trained s" "df (py_print x s) = df s"
  "csv_reads (py_print x s) = csv_reads s" "files (py_print x s) = files s"
  "data_file (py_print x s) = data_file s" "csv_path (py_print x s) = csv_path s"
  "read_csv (py_print x s) = read_csv s" "model (py_print x s) = model s"
  "r2 (py_print x s) = r2 s" "clock (py_print x s) = clock s" "ticks (py_print x s) = ticks s"
  "stdout (py_print x s) = stdout s @ [x]"
  by (simp_all add: py_print_def)

lemma print_available_out: "\<exists>out. print_available i cs s = s\<lparr>stdout := out\<rparr>"
proof (induction cs arbitrary: i s)
  case Nil
  show ?case by (rule exI[of _ "stdout s"]) simp
next
  case (Cons c cs)
  let ?s = "py_print (''    '' @ rjust2 (str_nat i) @ ''. '' @ c
                  @ (if c \<in> set DEFAULT_FEATURES then '' *'' else '''')) s"
  obtain out where "print_available (Suc i) cs ?s = ?s\<lparr>stdout := out\<rparr>"
    using Cons.IH by blast
  then show ?case by (auto simp: py_print_def)
qed

lemma print_available_fields [simp]:
  "stdin (print_available i cs s) = stdin s" "features (print_available i cs s) = features s"
  "is_trained (print_available i cs s) = is_trained s" "df (print_available i cs s) = df s"
  "csv_reads (print_available i cs s) = csv_reads s" "files (print_available i cs s) = files s"
  "data_file (print_available i cs s) = data_file s"
  "csv_path (print_available i cs s) = csv_path s"
  "read_csv (print_available i cs s) = read_csv s"
  using print_available_out [of i cs s] by auto

lemma print_numbered_out: "\<exists>out. print_numbered i cs s = s\<lparr>stdout := out\<rparr>"
proof (induction cs arbitrary: i s)
  case Nil
  show ?case by (rule exI[of _ "stdout s"]) simp
next
  case (Cons c cs)
  let ?s = "py_print (''    '' @ rjust2 (str_nat i) @ ''. '' @ c) s"
  obtain out where "print_numbered (Suc i) cs ?s = ?s\<lparr>stdout := out\<rparr>"
    using Cons.IH by blast
  then show ?case by (auto simp: py_print_def)
qed

lemma print_numbered_fields [simp]:
  "stdin (print_numbered i cs s) = stdin s" "features (print_numbered i cs s) = features s"
  "is_trained (print_numbered i cs s) = is_trained s" "df (print_numbered i cs s) = df s"
  "csv_reads (print_numbered i cs s) = csv_reads s" "files (print_numbered i cs s) = files s"
  "data_file (print_numbered i cs s) = data_file s"
  using print_numbered_out [of i cs s] by auto

lemma print_history_out: "\<exists>out. print_history i ls s = s\<lparr>stdout := out\<rparr>"
proof (induction ls arbitrary: i s)
  case Nil
  show ?case by (rule exI[of _ "stdout s"]) simp
next
  case (Cons l ls)
  let ?s = "py_print (''  '' @ str_nat i @ ''. '' @ strip l) s"
  obtain out where "print_history (Suc i) ls ?s = ?s\<lparr>stdout := out\<rparr>"
    using Cons.IH by blast
  then show ?case by (auto simp: py_print_def)
qed

lemma print_history_fields [simp]:
  "stdin (print_history i ls s) = stdin s" "features (print_history i ls s) = features s"
  "is_trained (print_history i ls s) = is_trained s" "df (print_history i ls s) = df s"
  "csv_reads (print_history i ls s) = csv_reads s" "files (print_history i ls s) = files s"
  "data_file (print_history i ls s) = data_file s"
  using print_history_out [of i ls s] by auto

lemma ensure_loaded_keeps:
  assumes "ensure_loaded s = (r, s1)"
  shows "stdin s1 = stdin s" "features s1 = features s" "is_trained s1 = is_trained s"
    "files s1 = files s" "data_file s1 = data_file s" "stdout s1 = stdout s"
  using assms
  by (auto simp: ensure_loaded_def load_dataset_def Let_def split: option.splits sum.splits)

lemma get_numeric_columns_keeps:
  assumes "get_numeric_columns s = (r, s1)"
  shows "stdin s1 = stdin s" "features s1 = features s" "is_trained s1 = is_trained s"
    "files s1 = files s" "data_file s1 = data_file s"
proof -
  obtain r0 where "ensure_loaded s = (r0, s1)"
    using assms by (auto simp: get_numeric_columns_def split: prod.splits sum.splits)
  then show "stdin s1 = stdin s" "features s1 = features s" "is_trained s1 = is_trained s"
    "files s1 = files s" "data_file s1 = data_file s"
    by (simp_all add: ensure_loaded_keeps)
qed

lemma choose_features_keeps [simp]:
  "stdin (choose_features rt av u s) = stdin s"
  "files (choose_features rt av u s) = files s"
  "data_file (choose_features rt av u s) = data_file s"
  "df (choose_features rt av u s) = df s"
  "csv_reads (choose_features rt av u s) = csv_reads s"
  by (simp_all add: choose_features_def Let_def split: sum.splits)

lemma select_features_run:
  assumes "get_numeric_columns s = (Inr av, s1)" and "stdin s = line # rest"
  shows "\<exists>s0. select_features rt s =
           (Inr (), py_print (rule60 CHR ''='')
                      ((choose_features rt av (strip line) s0)\<lparr>is_trained := False\<rparr>))"
proof -
  have "stdin s1 = line # rest"
    using assms get_numeric_columns_keeps(1) [OF assms(1)] by simp
  then show ?thesis
    using assms(1) by (simp add: select_features_def py_input_def Let_def) blast
qed

lemma select_features_stdin:
  "length (stdin (snd (select_features rt s))) \<le> length (stdin s)"
proof (cases "get_numeric_columns s")
  case (Pair r s1)
  note keeps = get_numeric_columns_keeps(1) [OF Pair]
  show ?thesis
  proof (cases r)
    case (Inl e)
    then show ?thesis using Pair keeps by (simp add: select_features_def)
  next
    case (Inr av)
    then show ?thesis using Pair keeps
      by (simp add: select_features_def py_input_def Let_def split: list.splits)
  qed
qed

lemma choose_features_result:
  "features (choose_features rt av u s) =
     (if u = [] then DEFAULT_FEATURES
      else case parse_indices (int_max_str_digits rt) (split_sep CHR '','' u) of
             Inl e \<Rightarrow> DEFAULT_FEATURES
           | Inr is \<Rightarrow> (case pick_columns av is of
                          Inl e \<Rightarrow> DEFAULT_FEATURES
                        | Inr sel \<Rightarrow> if sel = [] then DEFAULT_FEATURES else sel))"
  by (simp add: choose_features_def Let_def split: sum.splits)

lemma pick_columns_eq:
  "pick_columns av is =
     Inr (map (\<lambda>i. av ! nat (i - 1)) (filter (\<lambda>i. 1 \<le> i \<and> i \<le> int (length av)) is))"
  by (induction "is") (auto simp: py_index_def Let_def)

lemma parse_indices_Inr:
  "parse_indices lim xs = Inr is \<longleftrightarrow> map (\<lambda>x. py_int lim (strip x)) xs = map Inr is"
proof (induction xs arbitrary: "is")
  case Nil
  then show ?case by auto
next
  case (Cons x xs)
  show ?case
  proof (cases "is")
    case Nil
    then show ?thesis by (auto split: sum.splits)
  next
    case (Cons i js)
    then show ?thesis using Cons.IH [of js] by (auto split: sum.splits)
  qed
qed

lemma parse_indices_Inl:
  assumes "x \<in> set xs" and "\<forall>i. py_int lim (strip x) \<noteq> Inr i"
  shows "\<exists>e. parse_indices lim xs = Inl e"
proof (cases "parse_indices lim xs")
  case (Inl e)
  then show ?thesis by blast
next
  case (Inr "is")
  then have "map (\<lambda>x. py_int lim (strip x)) xs = map Inr is"
    by (simp add: parse_indices_Inr)
  then have "py_int lim (strip x) \<in> set (map Inr is)"
    using assms(1) by (metis (no_types, lifting) image_eqI list.set_map)
  then show ?thesis using assms(2) by auto
qed


lemma split_sep_nonempty: "split_sep c xs \<noteq> []"
  by (induction xs) (auto split: list.splits)

lemma py_int_empty: "py_int lim (strip []) = Inl ValueError"
  by (simp add: py_int_def strip_def)

lemma select_features_features:
  assumes "get_numeric_columns s = (Inr av, s1)" and "stdin s = line # rest"
  shows "features (snd (select_features rt s)) =
     (if strip line = [] then DEFAULT_FEATURES
      else case parse_indices (int_max_str_digits rt) (split_sep CHR '','' (strip line)) of
             Inl e \<Rightarrow> DEFAULT_FEATURES
           | Inr is \<Rightarrow>
               (let kept = map (\<lambda>i. av ! nat (i - 1))
                             (filter (\<lambda>i. 1 \<le> i \<and> i \<le> int (length av)) is)
                in if kept = [] then DEFAULT_FEATURES else kept))"
proof -
  obtain s0 where "select_features rt s =
      (Inr (), py_print (rule60 CHR ''='')
                 ((choose_features rt av (strip line) s0)\<lparr>is_trained := False\<rparr>))"
    using select_features_run [OF assms] by blast
  then have "features (snd (select_features rt s)) = features (choose_features rt av (strip line) s0)"
    by simp
  then show ?thesis
    by (simp add: choose_features_result pick_columns_eq Let_def split: sum.splits)
qed

text \<open>
  Claim C2. For a non-empty selection string, every token is parsed as an integer. If
  some token does not parse, the feature list becomes the default list, whatever the
  other tokens are. If all tokens parse, the indices outside 1..N are dropped and the
  columns of the others are kept in the order given; when none is kept the feature list
  becomes the default list.
\<close>

theorem select_features_policy:
  assumes "get_numeric_columns s = (Inr available, s1)"
    and "stdin s = line # rest"
    and "strip line \<noteq> []"
  shows "((\<exists>x \<in> set (split_sep CHR '','' (strip line)).
             \<forall>i. py_int (int_max_str_digits rt) (strip x) \<noteq> Inr i)
          \<longrightarrow> features (snd (select_features rt s)) = DEFAULT_FEATURES)
       \<and> (\<forall>is. map (\<lambda>x. py_int (int_max_str_digits rt) (strip x))
                  (split_sep CHR '','' (strip line)) = map Inr is
          \<longrightarrow> features (snd (select_features rt s)) =
                (let kept = map (\<lambda>i. available ! nat (i - 1))
                              (filter (\<lambda>i. 1 \<le> i \<and> i \<le> int (length available)) is)
                 in if kept = [] then DEFAULT_FEATURES else kept))"
proof (intro conjI impI allI)
  assume "\<exists>x \<in> set (split_sep CHR '','' (strip line)).
             \<forall>i. py_int (int_max_str_digits rt) (strip x) \<noteq> Inr i"
  then obtain e where "parse_indices (int_max_str_digits rt) (split_sep CHR '','' (strip line)) = Inl e"
    using parse_indices_Inl by blast
  then show "features (snd (select_features rt s)) = DEFAULT_FEATURES"
    by (simp add: select_features_features [OF assms(1,2)])
next
  fix "is"
  assume "map (\<lambda>x. py_int (int_max_str_digits rt) (strip x))
                  (split_sep CHR '','' (strip line)) = map Inr is"
  then have "parse_indices (int_max_str_digits rt) (split_sep CHR '','' (strip line)) = Inr is"
    by (simp add: parse_indices_Inr)
  then show "features (snd (select_features rt s)) =
                (let kept = map (\<lambda>i. available ! nat (i - 1))
                              (filter (\<lambda>i. 1 \<le> i \<and> i \<le> int (length available)) is)
                 in if kept = [] then DEFAULT_FEATURES else kept)"
    using assms(3) by (simp add: select_features_features [OF assms(1,2)])
qed

text \<open>
  Claim C3. When every token of the selection string parses as an integer between 1 and
  N, the feature list is the list of the corresponding available columns, in the order
  in which the indices were typed.
\<close>

theorem select_features_in_range:
  assumes "get_numeric_columns s = (Inr available, s1)"
    and "stdin s = line # rest"
    and "map (\<lambda>x. py_int (int_max_str_digits rt) (strip x))
           (split_sep CHR '','' (strip line)) = map Inr is"
    and "\<forall>i \<in> set is. 1 \<le> i \<and> i \<le> int (length available)"
  shows "features (snd (select_features rt s)) = map (\<lambda>i. available ! nat (i - 1)) is"
proof -
  have ne: "strip line \<noteq> []"
  proof
    assume "strip line = []"
    then have "[py_int (int_max_str_digits rt) (strip [])] = map Inr is"
      using assms(3) by simp
    then show False by (auto simp: py_int_empty)
  qed
  have "length is = length (split_sep CHR '','' (strip line))"
    using assms(3) by (metis length_map)
  then have "is \<noteq> []"
    using split_sep_nonempty [of "CHR '',''" "strip line"] by auto
  moreover have "filter (\<lambda>i. 1 \<le> i \<and> i \<le> int (length available)) is = is"
    using assms(4) by (simp add: filter_id_conv)
  moreover have "parse_indices (int_max_str_digits rt) (split_sep CHR '','' (strip line)) = Inr is"
    using assms(3) by (simp add: parse_indices_Inr)
  ultimately show ?thesis
    using ne by (simp add: select_features_features [OF assms(1,2)] Let_def)
qed

text \<open>
  Claim C4. After every run of feature selection that returns, the trained flag is
  false, whatever was typed and whatever the flag and the feature list were before.
\<close>

theorem select_features_resets_trained:
  assumes "select_features rt s = (Inr u, s')"
  shows "\<not> is_trained s'"
proof (cases "get_numeric_columns s")
  case (Pair r s1)
  show ?thesis
  proof (cases r)
    case (Inl e)
    then show ?thesis using Pair assms by (simp add: select_features_def)
  next
    case (Inr av)
    show ?thesis
    proof (cases "stdin s")
      case Nil
      then have "stdin s1 = []" using get_numeric_columns_keeps(1) [OF Pair] by simp
      then show ?thesis using Pair Inr assms
        by (simp add: select_features_def py_input_def Let_def)
    next
      case (Cons line rest)
      obtain s0 where "select_features rt s =
          (Inr (), py_print (rule60 CHR ''='')
                     ((choose_features rt av (strip line) s0)\<lparr>is_trained := False\<rparr>))"
        using select_features_run [of s av s1 line rest rt] Pair Inr Cons by blast
      then show ?thesis using assms by auto
    qed
  qed
qed

lemma demo_columns:
  "get_numeric_columns (demo inp) =
     (Inr [''bedrooms'', ''bathrooms'', ''sqft_living'', ''sqft_lot'', ''floors'',
           ''waterfront'', ''view'', ''condition'', ''grade'', ''sqft_above'',
           ''sqft_basement'', ''yr_built'', ''yr_renovated'', ''zipcode'', ''lat'',
           ''long'', ''sqft_living15'', ''sqft_lot15''],
      (demo inp)\<lparr>csv_reads := 1, df := Some kc_table\<rparr>)"
  by (simp add: get_numeric_columns_def ensure_loaded_def load_dataset_def demo_def init_def
      kc_csv_def numeric_columns_def kc_table_def kc_columns_def exclude_def)

lemma demo_stdin: "stdin (demo inp) = inp"
  by (simp add: demo_def init_def)

lemma demo_rt_limit: "int_max_str_digits demo_rt = 4300"
  by (simp add: demo_rt_def)


theorem select_features_policy_witness:
  "stdin (demo [''0,3, 1,99'']) = [''0,3, 1,99''] \<and> strip ''0,3, 1,99'' \<noteq> []
   \<and> features (snd (select_features demo_rt (demo [''0,3, 1,99'']))) = [''sqft_living'', ''bedrooms'']"
proof -
  have a: "stdin (demo [''0,3, 1,99'']) = ''0,3, 1,99'' # []" by (simp add: demo_stdin)
  have b: "strip ''0,3, 1,99'' \<noteq> []" by code_simp
  have c: "map (\<lambda>x. py_int (int_max_str_digits demo_rt) (strip x))
             (split_sep CHR '','' (strip ''0,3, 1,99'')) = map Inr [0, 3, 1, 99]"
    unfolding demo_rt_limit by code_simp
  from select_features_policy [OF demo_columns a b, of demo_rt] c
  have "features (snd (select_features demo_rt (demo [''0,3, 1,99'']))) =
      (let kept = map (\<lambda>i. [''bedrooms'', ''bathrooms'', ''sqft_living'', ''sqft_lot'', ''floors'',
           ''waterfront'', ''view'', ''condition'', ''grade'', ''sqft_above'',
           ''sqft_basement'', ''yr_built'', ''yr_renovated'', ''zipcode'', ''lat'',
           ''long'', ''sqft_living15'', ''sqft_lot15''] ! nat (i - 1))
                              (filter (\<lambda>i. 1 \<le> i \<and> i \<le> int (length [''bedrooms'', ''bathrooms'', ''sqft_living'', ''sqft_lot'', ''floors'',
           ''waterfront'', ''view'', ''condition'', ''grade'', ''sqft_above'',
           ''sqft_basement'', ''yr_built'', ''yr_renovated'', ''zipcode'', ''lat'',
           ''long'', ''sqft_living15'', ''sqft_lot15''])) [0, 3, 1, 99])
                 in if kept = [] then DEFAULT_FEATURES else kept)"
    by blast
  then show ?thesis using a b by simp
qed

lemma read_value_stdin:
  "length (stdin (snd (read_value rt feat s))) \<le> length (stdin s)"
proof (induction rt feat s rule: read_value.induct)
  case (1 rt feat s)
  show ?case
  proof (cases "stdin s")
    case Nil
    then show ?thesis by (subst read_value.simps) (simp add: py_input_def Let_def)
  next
    case (Cons l ls)
    show ?thesis
    proof (cases "float_of_str rt l")
      case None
      let ?s1 = "(py_print (''    '' @ feat @ '': '') s)\<lparr>stdin := ls\<rparr>"
      have eq: "py_input (''    '' @ feat @ '': '') s = (Inr l, ?s1)"
        using Cons by (simp add: py_input_def Let_def)
      have "length (stdin (snd (read_value rt feat (py_print ''    Please enter a valid number.'' ?s1))))
          \<le> length (stdin (py_print ''    Please enter a valid number.'' ?s1))"
        by (rule "1.IH" [OF eq [symmetric] refl None])
      then show ?thesis using Cons None
        by (subst read_value.simps) (simp add: py_input_def Let_def)
    next
      case (Some v)
      then show ?thesis using Cons
        by (subst read_value.simps) (simp add: py_input_def Let_def)
    qed
  qed
qed

lemma collect_values_stdin:
  "length (stdin (snd (collect_values rt feats vals s))) \<le> length (stdin s)"
proof (induction feats arbitrary: vals s)
  case Nil
  then show ?case by simp
next
  case (Cons feat feats)
  show ?case
  proof (cases "read_value rt feat s")
    case (Pair r s1)
    have le: "length (stdin s1) \<le> length (stdin s)"
      using read_value_stdin [of rt feat s] Pair by simp
    show ?thesis
    proof (cases r)
      case (Inl e)
      then show ?thesis using Pair le by simp
    next
      case (Inr v)
      then show ?thesis
        using Pair le Cons.IH [of "dict_set vals feat v" s1] by simp
    qed
  qed
qed

lemma save_prediction_fields [simp]:
  "stdin (save_prediction rt vs p s) = stdin s"
  "csv_reads (save_prediction rt vs p s) = csv_reads s"
  "df (save_prediction rt vs p s) = df s"
  "is_trained (save_prediction rt vs p s) = is_trained s"
  "features (save_prediction rt vs p s) = features s"
  "data_file (save_prediction rt vs p s) = data_file s"
  by (simp_all add: save_prediction_def Let_def)

lemma load_predictions_fields [simp]:
  "stdin (load_predictions s) = stdin s"
  "csv_reads (load_predictions s) = csv_reads s"
  "df (load_predictions s) = df s"
  "files (load_predictions s) = files s"
  "data_file (load_predictions s) = data_file s"
  by (simp_all add: load_predictions_def Let_def split: option.splits)

lemma display_dataset_info_stdin:
  "stdin (snd (display_dataset_info rt s)) = stdin s"
proof (cases "ensure_loaded s")
  case (Pair r s1)
  then show ?thesis using ensure_loaded_keeps(1) [OF Pair]
    by (cases r) (simp_all add: display_dataset_info_def Let_def)
qed

lemma train_model_stdin:
  "stdin (snd (train_model rt s)) = stdin s"
proof (cases "ensure_loaded s")
  case (Pair r s1)
  then show ?thesis using ensure_loaded_keeps(1) [OF Pair]
    by (cases r)
       (simp_all add: train_model_def display_r_squared_def Let_def
          split: sum.splits prod.splits option.splits)
qed

lemma predict_price_stdin:
  "length (stdin (snd (predict_price rt s))) \<le> length (stdin s)"
proof (cases "is_trained s")
  case False
  then show ?thesis by (simp add: predict_price_def)
next
  case True
  let ?s4 = "py_print (''  Enter values for each feature:'' @ [LF])
               (py_print (rule60 CHR ''='')
                 (py_print ''           PREDICT HOUSE PRICE'' (py_print banner s)))"
  have "length (stdin (snd (collect_values rt (features ?s4) [] ?s4))) \<le> length (stdin s)"
    using collect_values_stdin [of rt "features ?s4" "[]" ?s4] by simp
  then show ?thesis using True
    by (auto simp: predict_price_def Let_def split: prod.splits sum.splits)
qed

lemma menu_action_stdin:
  "length (stdin (snd (menu_action rt choice s))) \<le> length (stdin s)"
  using select_features_stdin [of rt s] predict_price_stdin [of rt s]
  by (auto simp: menu_action_def display_dataset_info_stdin train_model_stdin
      split: prod.splits sum.splits)

lemma display_menu_fields [simp]:
  "stdin (display_menu s) = stdin s" "csv_reads (display_menu s) = csv_reads s"
  "df (display_menu s) = df s" "is_trained (display_menu s) = is_trained s"
  "read_csv (display_menu s) = read_csv s" "csv_path (display_menu s) = csv_path s"
  "features (display_menu s) = features s" "files (display_menu s) = files s"
  "data_file (display_menu s) = data_file s"
  by (simp_all add: display_menu_def Let_def)

termination main_loop
proof (relation "measure (\<lambda>(rt, s). length (stdin s))")
  show "wf (measure (\<lambda>(rt, s). length (stdin s)))" by simp
next
  fix rt :: "('f, 'd, 'm) runtime" and s :: "('f, 'd, 'm) session"
    and x s1 line choice y s2 u
  assume inp: "(x, s1) = py_input ''  Enter your choice (1-6): '' (display_menu s)"
    and x: "x = Inr line" and c: "choice = strip line"
    and act: "(y, s2) = menu_action rt choice s1"
  have "length (stdin s1) < length (stdin s)"
    using inp x by (auto simp: py_input_def Let_def split: list.splits)
  moreover have "length (stdin s2) \<le> length (stdin s1)"
    using menu_action_stdin [of rt choice s1] act [symmetric] by simp
  ultimately show "((rt, s2), (rt, s)) \<in> measure (\<lambda>(rt, s). length (stdin s))"
    by simp
qed

subsection \<open>Feature selection at concrete inputs\<close>

theorem select_features_in_range_witness:
  "stdin (demo ['' 3 , 1,1 '']) = ['' 3 , 1,1 '']
   \<and> parse_indices (int_max_str_digits demo_rt) (split_sep CHR '','' (strip '' 3 , 1,1 ''))
       = Inr [3, 1, 1]
   \<and> features (snd (select_features demo_rt (demo ['' 3 , 1,1 ''])))
       = [''sqft_living'', ''bedrooms'', ''bedrooms'']"
proof -
  have a: "stdin (demo ['' 3 , 1,1 '']) = '' 3 , 1,1 '' # []" by (simp add: demo_stdin)
  have c: "map (\<lambda>x. py_int (int_max_str_digits demo_rt) (strip x))
             (split_sep CHR '','' (strip '' 3 , 1,1 '')) = map Inr [3, 1, 1]"
    unfolding demo_rt_limit by code_simp
  have d: "\<forall>i \<in> set [3, 1, 1 :: int]. 1 \<le> i \<and> i \<le> int (length [''bedrooms'', ''bathrooms'', ''sqft_living'', ''sqft_lot'', ''floors'',
           ''waterfront'', ''view'', ''condition'', ''grade'', ''sqft_above'',
           ''sqft_basement'', ''yr_built'', ''yr_renovated'', ''zipcode'', ''lat'',
           ''long'', ''sqft_living15'', ''sqft_lot15''])" by simp
  have p: "parse_indices (int_max_str_digits demo_rt) (split_sep CHR '','' (strip '' 3 , 1,1 ''))
      = Inr [3, 1, 1]"
    using c by (simp only: parse_indices_Inr)
  show ?thesis
    using select_features_in_range [OF demo_columns a c d] a p by simp
qed


lemma trained_demo_columns:
  "get_numeric_columns (trained_demo inp) =
     (Inr [''bedrooms'', ''bathrooms'', ''sqft_living'', ''sqft_lot'', ''floors'',
           ''waterfront'', ''view'', ''condition'', ''grade'', ''sqft_above'',
           ''sqft_basement'', ''yr_built'', ''yr_renovated'', ''zipcode'', ''lat'',
           ''long'', ''sqft_living15'', ''sqft_lot15''],
      trained_demo inp)"
  by (simp add: get_numeric_columns_def ensure_loaded_def trained_demo_def
      numeric_columns_def kc_table_def kc_columns_def exclude_def)

lemma trained_demo_fields [simp]:
  "stdin (trained_demo inp) = inp" "is_trained (trained_demo inp)"
  by (simp_all add: trained_demo_def demo_def init_def)

theorem select_features_resets_trained_witness:
  "is_trained (trained_demo [''''])
   \<and> fst (select_features demo_rt (trained_demo [''''])) = Inr ()
   \<and> \<not> is_trained (snd (select_features demo_rt (trained_demo [''''])))"
proof -
  have a: "stdin (trained_demo ['''']) = '''' # []" by simp
  obtain s0 where run: "select_features demo_rt (trained_demo ['''']) =
      (Inr (), py_print (rule60 CHR ''='')
                 ((choose_features demo_rt [''bedrooms'', ''bathrooms'', ''sqft_living'', ''sqft_lot'', ''floors'',
           ''waterfront'', ''view'', ''condition'', ''grade'', ''sqft_above'',
           ''sqft_basement'', ''yr_built'', ''yr_renovated'', ''zipcode'', ''lat'',
           ''long'', ''sqft_living15'', ''sqft_lot15''] (strip '''') s0)\<lparr>is_trained := False\<rparr>))"
    using select_features_run [OF trained_demo_columns a] by blast
  have "select_features demo_rt (trained_demo ['''']) =
      (Inr (), snd (select_features demo_rt (trained_demo [''''])))"
    by (simp add: run)
  from select_features_resets_trained [OF this] show ?thesis
    by (simp add: run)
qed

text \<open>
  With the 18 numeric columns of the King County table, the input \<open>2,99\<close> has two
  tokens that parse and one index out of range, and selects column 2 alone.
\<close>

theorem select_features_partial_counterexample:
  "parse_indices (int_max_str_digits demo_rt) (split_sep CHR '','' (strip ''2,99'')) = Inr [2, 99]
   \<and> length (numeric_columns kc_table) = 18
   \<and> features (snd (select_features demo_rt (demo [''2,99'']))) = [''bathrooms'']
   \<and> [''bathrooms''] \<noteq> DEFAULT_FEATURES"
proof -
  have a: "stdin (demo [''2,99'']) = ''2,99'' # []" by (simp add: demo_stdin)
  have b: "strip ''2,99'' \<noteq> []" by code_simp
  have c: "parse_indices (int_max_str_digits demo_rt) (split_sep CHR '','' (strip ''2,99'')) = Inr [2, 99]"
    unfolding demo_rt_limit by code_simp
  have d: "length (numeric_columns kc_table) = 18"
    by (simp add: numeric_columns_def kc_table_def kc_columns_def exclude_def)
  have "features (snd (select_features demo_rt (demo [''2,99'']))) = [''bathrooms'']"
    using b c by (simp add: select_features_features [OF demo_columns a])
  then show ?thesis using c d by (simp add: DEFAULT_FEATURES_def)
qed

text \<open>
  Claim C1, as amended. A token that does not parse as an integer makes the feature list
  the default list, whatever the other tokens are. An index out of range does not: when
  all tokens parse, the indices outside 1..N are dropped and the columns of the indices
  in range are kept in the order given, and the default list is used only when no index
  is in range.
\<close>

theorem select_features_fallback:
  assumes "get_numeric_columns s = (Inr available, s1)"
    and "stdin s = line # rest"
    and "strip line \<noteq> []"
    and "tokens = split_sep CHR '','' (strip line)"
    and "in_range = (\<lambda>i. 1 \<le> i \<and> i \<le> int (length available))"
  shows "((\<exists>x \<in> set tokens. \<forall>i. py_int (int_max_str_digits rt) (strip x) \<noteq> Inr i)
          \<longrightarrow> features (snd (select_features rt s)) = DEFAULT_FEATURES)
       \<and> (\<forall>is. map (\<lambda>x. py_int (int_max_str_digits rt) (strip x)) tokens = map Inr is
                \<and> (\<exists>i \<in> set is. in_range i)
          \<longrightarrow> features (snd (select_features rt s))
                = map (\<lambda>i. available ! nat (i - 1)) (filter in_range is))
       \<and> (\<forall>is. map (\<lambda>x. py_int (int_max_str_digits rt) (strip x)) tokens = map Inr is
                \<and> (\<forall>i \<in> set is. \<not> in_range i)
          \<longrightarrow> features (snd (select_features rt s)) = DEFAULT_FEATURES)"
proof (intro conjI impI allI)
  assume "\<exists>x \<in> set tokens. \<forall>i. py_int (int_max_str_digits rt) (strip x) \<noteq> Inr i"
  then obtain e where "parse_indices (int_max_str_digits rt) tokens = Inl e"
    using parse_indices_Inl by blast
  then show "features (snd (select_features rt s)) = DEFAULT_FEATURES"
    using assms(4) by (simp add: select_features_features [OF assms(1,2)])
next
  fix "is"
  assume h: "map (\<lambda>x. py_int (int_max_str_digits rt) (strip x)) tokens = map Inr is
                \<and> (\<exists>i \<in> set is. in_range i)"
  then have p: "parse_indices (int_max_str_digits rt) (split_sep CHR '','' (strip line)) = Inr is"
    using assms(4) by (simp add: parse_indices_Inr)
  have "filter in_range is \<noteq> []"
    using h by (auto simp: filter_empty_conv)
  then show "features (snd (select_features rt s))
                = map (\<lambda>i. available ! nat (i - 1)) (filter in_range is)"
    using assms(3,5) p by (simp add: select_features_features [OF assms(1,2)] Let_def)
next
  fix "is"
  assume h: "map (\<lambda>x. py_int (int_max_str_digits rt) (strip x)) tokens = map Inr is
                \<and> (\<forall>i \<in> set is. \<not> in_range i)"
  then have p: "parse_indices (int_max_str_digits rt) (split_sep CHR '','' (strip line)) = Inr is"
    using assms(4) by (simp add: parse_indices_Inr)
  have "filter in_range is = []"
    using h by (auto simp: filter_empty_conv)
  then show "features (snd (select_features rt s)) = DEFAULT_FEATURES"
    using assms(3,5) p by (simp add: select_features_features [OF assms(1,2)] Let_def)
qed

theorem select_features_fallback_witness:
  "stdin (demo [''2,5,abc'']) = [''2,5,abc''] \<and> strip ''2,5,abc'' \<noteq> []
   \<and> features (snd (select_features demo_rt (demo [''2,5,abc'']))) = DEFAULT_FEATURES
   \<and> stdin (demo [''2,5,99'']) = [''2,5,99''] \<and> strip ''2,5,99'' \<noteq> []
   \<and> features (snd (select_features demo_rt (demo [''2,5,99'']))) = [''bathrooms'', ''floors'']
   \<and> stdin (demo [''0,99'']) = [''0,99''] \<and> strip ''0,99'' \<noteq> []
   \<and> features (snd (select_features demo_rt (demo [''0,99'']))) = DEFAULT_FEATURES"
proof -
  let ?av = "[''bedrooms'', ''bathrooms'', ''sqft_living'', ''sqft_lot'', ''floors'',
           ''waterfront'', ''view'', ''condition'', ''grade'', ''sqft_above'',
           ''sqft_basement'', ''yr_built'', ''yr_renovated'', ''zipcode'', ''lat'',
           ''long'', ''sqft_living15'', ''sqft_lot15'']"
  have a1: "stdin (demo [''2,5,abc'']) = ''2,5,abc'' # []" by (simp add: demo_stdin)
  have b1: "strip ''2,5,abc'' \<noteq> []" by code_simp
  have c1: "\<exists>x \<in> set (split_sep CHR '','' (strip ''2,5,abc'')).
              \<forall>i. py_int (int_max_str_digits demo_rt) (strip x) \<noteq> Inr i"
  proof -
    have "''abc'' \<in> set (split_sep CHR '','' (strip ''2,5,abc''))" by code_simp
    moreover have "py_int (int_max_str_digits demo_rt) (strip ''abc'') = Inl ValueError"
      unfolding demo_rt_limit by code_simp
    ultimately show ?thesis by (intro bexI [of _ "''abc''"]) simp_all
  qed
  have r1: "features (snd (select_features demo_rt (demo [''2,5,abc'']))) = DEFAULT_FEATURES"
    using select_features_fallback [OF demo_columns a1 b1 refl refl, of demo_rt] c1 by blast
  have a2: "stdin (demo [''2,5,99'']) = ''2,5,99'' # []" by (simp add: demo_stdin)
  have b2: "strip ''2,5,99'' \<noteq> []" by code_simp
  have c2: "map (\<lambda>x. py_int (int_max_str_digits demo_rt) (strip x))
             (split_sep CHR '','' (strip ''2,5,99'')) = map Inr [2, 5, 99]"
    unfolding demo_rt_limit by code_simp
  have d2: "\<exists>i \<in> set [2, 5, 99 :: int]. 1 \<le> i \<and> i \<le> int (length ?av)" by simp
  have "features (snd (select_features demo_rt (demo [''2,5,99''])))
      = map (\<lambda>i. ?av ! nat (i - 1)) (filter (\<lambda>i. 1 \<le> i \<and> i \<le> int (length ?av)) [2, 5, 99])"
    using select_features_fallback [OF demo_columns a2 b2 refl refl, of demo_rt] c2 d2 by blast
  then have r2: "features (snd (select_features demo_rt (demo [''2,5,99'']))) = [''bathrooms'', ''floors'']"
    by simp
  have a3: "stdin (demo [''0,99'']) = ''0,99'' # []" by (simp add: demo_stdin)
  have b3: "strip ''0,99'' \<noteq> []" by code_simp
  have c3: "map (\<lambda>x. py_int (int_max_str_digits demo_rt) (strip x))
             (split_sep CHR '','' (strip ''0,99'')) = map Inr [0, 99]"
    unfolding demo_rt_limit by code_simp
  have d3: "\<forall>i \<in> set [0, 99 :: int]. \<not> (1 \<le> i \<and> i \<le> int (length ?av))" by simp
  have r3: "features (snd (select_features demo_rt (demo [''0,99'']))) = DEFAULT_FEATURES"
    using select_features_fallback [OF demo_columns a3 b3 refl refl, of demo_rt] c3 d3 by blast
  show ?thesis using a1 b1 r1 a2 b2 r2 a3 b3 r3 by simp
qed

section \<open>Prediction\<close>

text \<open>
  Claim C5. When the trained flag is false, \<open>predict_price\<close> prints the "not trained"
  message and returns \<open>None\<close>: no exception, no input read, and nothing but the
  console output changes, so the log file is as it was.
\<close>

theorem predict_price_untrained:
  assumes "\<not> is_trained s"
  shows "predict_price rt s =
           (Inr None, s\<lparr>stdout := stdout s @ [LF # ''  [!] Model is not trained yet. Please train first.'']\<rparr>)
         \<and> files (snd (predict_price rt s)) = files s"
  using assms by (simp add: predict_price_def py_print_def)

lemma demo_untrained: "\<not> is_trained (demo inp)"
  by (simp add: demo_def init_def)

theorem predict_price_untrained_witness:
  "\<not> is_trained (demo [''3''])
   \<and> fst (predict_price demo_rt (demo [''3''])) = Inr None
   \<and> files (snd (predict_price demo_rt (demo [''3'']))) = files (demo [''3''])
   \<and> stdin (snd (predict_price demo_rt (demo [''3'']))) = [''3'']"
  using predict_price_untrained [OF demo_untrained, where rt = demo_rt and inp1 = "[''3'']"]
  by (simp add: demo_untrained demo_stdin)


lemma dict_set_keys:
  "map fst (dict_set vals k v) =
     (if k \<in> set (map fst vals) then map fst vals else map fst vals @ [k])"
  by (induction vals) auto

lemma collect_values_keys_set:
  assumes "collect_values rt feats vals s = (Inr values, s')" and "distinct (map fst vals)"
  shows "distinct (map fst values) \<and> set (map fst values) = set (map fst vals) \<union> set feats"
  using assms
proof (induction feats arbitrary: vals s)
  case Nil
  then show ?case by simp
next
  case (Cons feat feats)
  obtain r s1 where rv: "read_value rt feat s = (r, s1)" by (cases "read_value rt feat s")
  show ?case
  proof (cases r)
    case (Inl e)
    then show ?thesis using Cons.prems rv by simp
  next
    case (Inr v)
    then have cv: "collect_values rt feats (dict_set vals feat v) s1 = (Inr values, s')"
      using Cons.prems rv by simp
    have d: "distinct (map fst (dict_set vals feat v))"
      using Cons.prems(2) by (simp add: dict_set_keys)
    show ?thesis
      using Cons.IH [OF cv d] by (auto simp: dict_set_keys split: if_splits)
  qed
qed

lemma collect_values_keys_order:
  assumes "collect_values rt feats vals s = (Inr values, s')"
    and "distinct (map fst vals @ feats)"
  shows "map fst values = map fst vals @ feats"
  using assms
proof (induction feats arbitrary: vals s)
  case Nil
  then show ?case by simp
next
  case (Cons feat feats)
  obtain r s1 where rv: "read_value rt feat s = (r, s1)" by (cases "read_value rt feat s")
  show ?case
  proof (cases r)
    case (Inl e)
    then show ?thesis using Cons.prems rv by simp
  next
    case (Inr v)
    then have cv: "collect_values rt feats (dict_set vals feat v) s1 = (Inr values, s')"
      using Cons.prems rv by simp
    have k: "map fst (dict_set vals feat v) = map fst vals @ [feat]"
      using Cons.prems(2) by (simp add: dict_set_keys)
    have d: "distinct (map fst (dict_set vals feat v) @ feats)"
      using Cons.prems(2) by (simp add: k)
    show ?thesis
      using Cons.IH [OF cv d] by (simp add: k)
  qed
qed



lemma fitted_on_reachable:
  "features (snd (select_features demo_rt (demo [''1,1''])))
     = features (fitted_on [''bedrooms'', ''bedrooms''] inp)"
proof -
  have a: "stdin (demo [''1,1'']) = ''1,1'' # []" by (simp add: demo_stdin)
  have b: "strip ''1,1'' \<noteq> []" by code_simp
  have c: "parse_indices (int_max_str_digits demo_rt) (split_sep CHR '','' (strip ''1,1'')) = Inr [1, 1]"
    unfolding demo_rt_limit by code_simp
  show ?thesis
    using b c by (simp add: select_features_features [OF demo_columns a] fitted_on_def)
qed

lemma fitted_on_fields [simp]:
  "is_trained (fitted_on names inp)" "features (fitted_on names inp) = names"
  "stdin (fitted_on names inp) = inp"
  by (simp_all add: fitted_on_def trained_demo_def demo_def init_def)


declare read_value.simps [simp del]

lemma read_value_step:
  "read_value rt feat s =
     (case stdin s of
        [] \<Rightarrow> (Inl EOFError, py_print (''    '' @ feat @ '': '') s)
      | l # ls \<Rightarrow>
          (case float_of_str rt l of
             Some val \<Rightarrow> (Inr val, (py_print (''    '' @ feat @ '': '') s)\<lparr>stdin := ls\<rparr>)
           | None \<Rightarrow> read_value rt feat
                       (py_print ''    Please enter a valid number.''
                          ((py_print (''    '' @ feat @ '': '') s)\<lparr>stdin := ls\<rparr>))))"
  by (subst read_value.simps) (simp add: py_input_def Let_def split: list.splits option.splits)

lemma read_value_out:
  "\<exists>inp out. snd (read_value rt feat s) = s\<lparr>stdin := inp, stdout := out\<rparr>"
proof (induction "length (stdin s)" arbitrary: s rule: less_induct)
  case less
  show ?case
  proof (cases "stdin s")
    case Nil
    have "snd (read_value rt feat s)
        = s\<lparr>stdin := [], stdout := stdout s @ [''    '' @ feat @ '': '']\<rparr>"
      using Nil by (subst read_value_step) (cases s, simp add: py_print_def)
    then show ?thesis by blast
  next
    case (Cons l ls)
    show ?thesis
    proof (cases "float_of_str rt l")
      case (Some v)
      have "snd (read_value rt feat s)
          = s\<lparr>stdin := ls, stdout := stdout s @ [''    '' @ feat @ '': '']\<rparr>"
        using Cons Some by (subst read_value_step) (cases s, simp add: py_print_def)
      then show ?thesis by blast
    next
      case None
      let ?s1 = "py_print ''    Please enter a valid number.''
                   ((py_print (''    '' @ feat @ '': '') s)\<lparr>stdin := ls\<rparr>)"
      have "length (stdin ?s1) < length (stdin s)" using Cons by simp
      then obtain inp out where "snd (read_value rt feat ?s1) = ?s1\<lparr>stdin := inp, stdout := out\<rparr>"
        using less.hyps [of ?s1] by blast
      then have "snd (read_value rt feat s) = s\<lparr>stdin := inp, stdout := out\<rparr>"
        using Cons None by (subst read_value_step) (simp add: py_print_def)
      then show ?thesis by blast
    qed
  qed
qed

lemma collect_values_out:
  "\<exists>inp out. snd (collect_values rt feats vals s) = s\<lparr>stdin := inp, stdout := out\<rparr>"
proof (induction feats arbitrary: vals s)
  case Nil
  show ?case by (rule exI [of _ "stdin s"], rule exI [of _ "stdout s"]) simp
next
  case (Cons feat feats)
  obtain r s1 where rv: "read_value rt feat s = (r, s1)" by (cases "read_value rt feat s")
  obtain inp out where s1: "s1 = s\<lparr>stdin := inp, stdout := out\<rparr>"
    using read_value_out [of rt feat s] rv by auto
  show ?case
  proof (cases r)
    case (Inl e)
    then show ?thesis using rv s1 by auto
  next
    case (Inr v)
    obtain inp' out' where "snd (collect_values rt feats (dict_set vals feat v) s1)
        = s1\<lparr>stdin := inp', stdout := out'\<rparr>"
      using Cons.IH by blast
    then have "snd (collect_values rt (feat # feats) vals s) = s\<lparr>stdin := inp', stdout := out'\<rparr>"
      using rv Inr s1 by simp
    then show ?thesis by blast
  qed
qed

lemma collect_values_keeps [simp]:
  "model (snd (collect_values rt feats vals s)) = model s"
  "csv_reads (snd (collect_values rt feats vals s)) = csv_reads s"
  "df (snd (collect_values rt feats vals s)) = df s"
  "files (snd (collect_values rt feats vals s)) = files s"
  "data_file (snd (collect_values rt feats vals s)) = data_file s"
  using collect_values_out [of rt feats vals s] by auto

lemma prompted_fields [simp]:
  "stdin (prompted s) = stdin s" "model (prompted s) = model s"
  "features (prompted s) = features s" "files (prompted s) = files s"
  by (simp_all add: prompted_def)

text \<open>
  Claim C10. In a trained session, the row that \<open>predict_price\<close> hands to the model
  has the keys of the dict \<open>values\<close> as columns. When the feature list has pairwise
  distinct names, these are exactly the features, in the order of the list, one value
  each. When a name is repeated, the dict collapses it and the row has fewer columns than
  the feature list. A repeated name is reachable: typing \<open>1,1\<close> in the selection gives
  the feature list of \<open>fitted_on_reachable\<close>.
\<close>

theorem predict_price_row:
  assumes "is_trained s"
    and "collect_values rt (features s) [] (prompted s) = (Inr values, s5)"
  shows "fst (predict_price rt s) =
           (case model_predict rt (model s) values of Inl e \<Rightarrow> Inl e | Inr p \<Rightarrow> Inr (Some p))
       \<and> (distinct (features s) \<longrightarrow>
            map fst values = features s \<and> length values = length (features s))
       \<and> (\<not> distinct (features s) \<longrightarrow> length values < length (features s))"
proof (intro conjI impI)
  show "fst (predict_price rt s) =
           (case model_predict rt (model s) values of Inl e \<Rightarrow> Inl e | Inr p \<Rightarrow> Inr (Some p))"
  proof -
    have "model s5 = model s"
      using collect_values_keeps(1) [of rt "features s" "[]" "prompted s"] assms(2)
      by simp
    then show ?thesis
      using assms by (simp add: predict_price_def prompted_def Let_def split: sum.splits)
  qed
next
  assume d: "distinct (features s)"
  then show "map fst values = features s"
    using collect_values_keys_order [OF assms(2)] by simp
  then show "length values = length (features s)"
    by (metis length_map)
next
  assume nd: "\<not> distinct (features s)"
  have k: "distinct (map fst values) \<and> set (map fst values) = set (features s)"
    using collect_values_keys_set [OF assms(2)] by simp
  then have "length values = card (set (features s))"
    by (metis distinct_card length_map)
  moreover have "card (set (features s)) \<noteq> length (features s)"
    using nd card_distinct by blast
  ultimately show "length values < length (features s)"
    using card_length [of "features s"] by simp
qed

lemma fitted_on_model [simp]: "model (fitted_on names inp) = Some (Fitted names)"
  by (simp add: fitted_on_def)

lemma demo_float: "float_of_str demo_rt ''3'' = Some 3" "float_of_str demo_rt ''x'' = None"
  "float_of_str demo_rt ''2'' = Some 2" "float_of_str demo_rt ''4'' = Some 4"
  by code_simp+

theorem predict_price_row_witness:
  "is_trained (fitted_on [''bedrooms'', ''bathrooms''] [''3'', ''x'', ''2''])
   \<and> distinct (features (fitted_on [''bedrooms'', ''bathrooms''] [''3'', ''x'', ''2'']))
   \<and> fst (predict_price demo_rt (fitted_on [''bedrooms'', ''bathrooms''] [''3'', ''x'', ''2'']))
       = Inr (Some 5)
   \<and> is_trained (fitted_on [''bedrooms'', ''bedrooms''] [''3'', ''x'', ''4''])
   \<and> \<not> distinct (features (fitted_on [''bedrooms'', ''bedrooms''] [''3'', ''x'', ''4'']))
   \<and> fst (predict_price demo_rt (fitted_on [''bedrooms'', ''bedrooms''] [''3'', ''x'', ''4'']))
       = Inl ValueError"
proof -
  let ?s = "fitted_on [''bedrooms'', ''bathrooms''] [''3'', ''x'', ''2'']"
  let ?vs = "[(''bedrooms'', 3), (''bathrooms'', 2)] :: (string \<times> int) list"
  let ?d = "fitted_on [''bedrooms'', ''bedrooms''] [''3'', ''x'', ''4'']"
  have t: "is_trained ?s" by simp
  have "fst (collect_values demo_rt (features ?s) [] (prompted ?s)) = Inr ?vs"
    by (simp add: read_value_step demo_float del: read_value.simps)
  then have c: "collect_values demo_rt (features ?s) [] (prompted ?s)
      = (Inr ?vs, snd (collect_values demo_rt (features ?s) [] (prompted ?s)))"
    by (simp add: prod_eq_iff)
  have m: "model_predict demo_rt (model ?s) ?vs = Inr 5"
    by (simp add: model_predict_def demo_rt_def)
  have r1: "fst (predict_price demo_rt ?s) = Inr (Some 5)"
    using predict_price_row [OF t c] m by simp
  have t': "is_trained ?d" by simp
  have "fst (collect_values demo_rt (features ?d) [] (prompted ?d)) = Inr [(''bedrooms'', 4)]"
    by (simp add: read_value_step demo_float del: read_value.simps)
  then have c': "collect_values demo_rt (features ?d) [] (prompted ?d)
      = (Inr [(''bedrooms'', 4)], snd (collect_values demo_rt (features ?d) [] (prompted ?d)))"
    by (simp add: prod_eq_iff)
  have m': "model_predict demo_rt (model ?d) [(''bedrooms'', 4)] = Inl ValueError"
    by (simp add: model_predict_def demo_rt_def)
  have r2: "fst (predict_price demo_rt ?d) = Inl ValueError"
    using predict_price_row [OF t' c'] m' by simp
  show ?thesis using t r1 t' r2 by simp
qed

section \<open>The menu loop\<close>

declare main_loop.simps [simp del]

lemma at_menu_fields [simp]:
  "stdin (at_menu s rest) = rest" "csv_reads (at_menu s rest) = csv_reads s"
  "df (at_menu s rest) = df s" "is_trained (at_menu s rest) = is_trained s"
  "read_csv (at_menu s rest) = read_csv s" "csv_path (at_menu s rest) = csv_path s"
  "features (at_menu s rest) = features s" "files (at_menu s rest) = files s"
  "data_file (at_menu s rest) = data_file s"
  by (simp_all add: at_menu_def)

lemma main_loop_eof:
  assumes "stdin s = []"
  shows "main_loop rt s = (Inl EOFError, py_print ''  Enter your choice (1-6): '' (display_menu s))"
  using assms by (subst main_loop.simps) (simp add: py_input_def Let_def)

lemma main_loop_exit:
  assumes "stdin s = line # rest" and "strip line = ''6''"
  shows "main_loop rt s =
           (Inr (), py_print (''  Goodbye!'' @ [LF])
                      (py_print (LF # ''  Thank you for using House Price Prediction System!'')
                         (at_menu s rest)))"
  using assms by (subst main_loop.simps) (simp add: py_input_def Let_def at_menu_def)

lemma main_loop_action:
  assumes "stdin s = line # rest" and "strip line \<noteq> ''6''"
  shows "main_loop rt s =
           (case menu_action rt (strip line) (at_menu s rest) of
              (Inl e, s2) \<Rightarrow> (Inl e, s2)
            | (Inr u, s2) \<Rightarrow> main_loop rt s2)"
  using assms by (subst main_loop.simps) (simp add: py_input_def Let_def at_menu_def)

section \<open>Reading the dataset file\<close>

lemma ensure_loaded_reads:
  assumes "loaded_once s" and "ensure_loaded s = (r, s1)"
  shows "csv_reads s1 \<le> 1 \<and> (\<forall>t. r = Inr t \<longrightarrow> loaded_once s1)"
  using assms
  by (auto simp: ensure_loaded_def load_dataset_def loaded_once_def Let_def
      split: option.splits sum.splits)

lemma ensure_loaded_cached:
  assumes "df s = Some t"
  shows "ensure_loaded s = (Inr t, s)"
  using assms by (simp add: ensure_loaded_def)

lemma ensure_loaded_failure:
  assumes "df s = None" and "read_csv s (csv_path s) = Inl e"
  shows "fst (ensure_loaded s) = Inl e"
  using assms by (simp add: ensure_loaded_def load_dataset_def Let_def)

lemma display_dataset_info_reads:
  assumes "ensure_loaded s = (r, s1)" and "display_dataset_info rt s = (r', s')"
  shows "csv_reads s' = csv_reads s1 \<and> df s' = df s1 \<and> (\<forall>u. r' = Inr u \<longrightarrow> (\<exists>t. r = Inr t))"
  using assms by (cases r) (auto simp: display_dataset_info_def Let_def)

lemma select_features_reads:
  assumes "ensure_loaded s = (r, s1)" and "select_features rt s = (r', s')"
  shows "csv_reads s' = csv_reads s1 \<and> df s' = df s1 \<and> (\<forall>u. r' = Inr u \<longrightarrow> (\<exists>t. r = Inr t))"
  using assms
  by (cases r)
     (auto simp: select_features_def get_numeric_columns_def py_input_def Let_def
        split: list.splits)

lemma train_model_reads:
  assumes "ensure_loaded s = (r, s1)" and "train_model rt s = (r', s')"
  shows "csv_reads s' = csv_reads s1 \<and> df s' = df s1 \<and> (\<forall>u. r' = Inr u \<longrightarrow> (\<exists>t. r = Inr t))"
  using assms
  by (cases r)
     (auto simp: train_model_def display_r_squared_def Let_def
        split: sum.splits prod.splits option.splits if_splits)

lemma prompted_more [simp]:
  "csv_reads (prompted s) = csv_reads s" "df (prompted s) = df s"
  "is_trained (prompted s) = is_trained s" "data_file (prompted s) = data_file s"
  by (simp_all add: prompted_def)

lemma predict_price_trained:
  assumes "is_trained s"
  shows "predict_price rt s =
     (case collect_values rt (features s) [] (prompted s) of
        (Inl e, s5) \<Rightarrow> (Inl e, s5)
      | (Inr values, s5) \<Rightarrow>
          (case model_predict rt (model s5) values of
             Inl e \<Rightarrow> (Inl e, s5)
           | Inr predicted \<Rightarrow>
               (Inr (Some predicted),
                save_prediction rt values predicted
                  (py_print (rule60 CHR ''='')
                     (py_print (''  Predicted House Price: $'' @ fmt_price rt predicted)
                        (py_print (rule60 CHR ''-'') s5))))))"
  using assms
  by (simp add: predict_price_def prompted_def Let_def split: prod.splits sum.splits)

lemma predict_price_reads:
  "csv_reads (snd (predict_price rt s)) = csv_reads s \<and> df (snd (predict_price rt s)) = df s"
proof (cases "is_trained s")
  case False
  then show ?thesis by (simp add: predict_price_def)
next
  case True
  obtain r s5 where cv: "collect_values rt (features s) [] (prompted s) = (r, s5)"
    by (cases "collect_values rt (features s) [] (prompted s)")
  have "s5 = snd (collect_values rt (features s) [] (prompted s))" by (simp add: cv)
  then have k: "csv_reads s5 = csv_reads s" "df s5 = df s" by simp_all
  show ?thesis
    using k by (simp add: predict_price_trained [OF True] cv split: sum.splits)
qed

lemma menu_action_reads:
  assumes "loaded_once s" and "menu_action rt choice s = (r', s')"
  shows "csv_reads s' \<le> 1 \<and> (\<forall>u. r' = Inr u \<longrightarrow> loaded_once s')"
proof -
  obtain r s1 where el: "ensure_loaded s = (r, s1)" by (cases "ensure_loaded s")
  note a = ensure_loaded_reads [OF assms(1) el]
  have loaded: "csv_reads s' = csv_reads s1 \<and> df s' = df s1 \<and> (\<forall>u. r' = Inr u \<longrightarrow> (\<exists>t. r = Inr t))
      \<Longrightarrow> ?thesis"
    using a by (auto simp: loaded_once_def)
  have same: "csv_reads s' = csv_reads s \<and> df s' = df s \<Longrightarrow> ?thesis"
    using assms(1) by (auto simp: loaded_once_def)
  consider "choice = ''1''" | "choice \<noteq> ''1''" "choice = ''2''"
    | "choice \<noteq> ''1''" "choice \<noteq> ''2''" "choice = ''3''"
    | "choice \<noteq> ''1''" "choice \<noteq> ''2''" "choice \<noteq> ''3''" "choice = ''4''"
    | "choice \<noteq> ''1''" "choice \<noteq> ''2''" "choice \<noteq> ''3''" "choice \<noteq> ''4''" "choice = ''5''"
    | "choice \<noteq> ''1''" "choice \<noteq> ''2''" "choice \<noteq> ''3''" "choice \<noteq> ''4''" "choice \<noteq> ''5''"
    by blast
  then show ?thesis
  proof cases
    case 1
    then have "display_dataset_info rt s = (r', s')" using assms(2) by (simp add: menu_action_def)
    then show ?thesis using display_dataset_info_reads [OF el] loaded by blast
  next
    case 2
    then have "select_features rt s = (r', s')" using assms(2) by (simp add: menu_action_def)
    then show ?thesis using select_features_reads [OF el] loaded by blast
  next
    case 3
    then have "train_model rt s = (r', s')" using assms(2) by (simp add: menu_action_def)
    then show ?thesis using train_model_reads [OF el] loaded by blast
  next
    case 4
    then have "s' = snd (predict_price rt s)"
      using assms(2) by (auto simp: menu_action_def split: prod.splits sum.splits)
    then show ?thesis using predict_price_reads [of rt s] same by simp
  next
    case 5
    then have "s' = load_predictions s" using assms(2) by (simp add: menu_action_def)
    then show ?thesis using same by simp
  next
    case 6
    then have "s' = py_print (LF # ''  [!] Invalid choice. Please enter a number between 1 and 6.'') s"
      using assms(2) by (simp add: menu_action_def)
    then show ?thesis using same by simp
  qed
qed

lemma at_menu_loaded_once: "loaded_once s \<Longrightarrow> loaded_once (at_menu s rest)"
  by (simp add: loaded_once_def)

lemma main_loop_reads:
  "loaded_once s \<Longrightarrow> csv_reads (snd (main_loop rt s)) \<le> 1"
proof (induction "length (stdin s)" arbitrary: s rule: less_induct)
  case less
  show ?case
  proof (cases "stdin s")
    case Nil
    then show ?thesis using less.prems by (simp add: main_loop_eof loaded_once_def)
  next
    case (Cons line rest)
    show ?thesis
    proof (cases "strip line = ''6''")
      case True
      then show ?thesis using Cons less.prems by (simp add: main_loop_exit loaded_once_def)
    next
      case False
      obtain r s2 where act: "menu_action rt (strip line) (at_menu s rest) = (r, s2)"
        by (cases "menu_action rt (strip line) (at_menu s rest)")
      note b = menu_action_reads [OF at_menu_loaded_once [OF less.prems] act]
      show ?thesis
      proof (cases r)
        case (Inl e)
        then show ?thesis using b act by (simp add: main_loop_action [OF Cons False])
      next
        case (Inr u)
        have "length (stdin s2) \<le> length (stdin (at_menu s rest))"
          using menu_action_stdin [of rt "strip line" "at_menu s rest"] act by simp
        then have "length (stdin s2) < length (stdin s)" using Cons by simp
        moreover have "loaded_once s2" using b Inr by blast
        ultimately have "csv_reads (snd (main_loop rt s2)) \<le> 1" by (rule less.hyps)
        then show ?thesis using act Inr by (simp add: main_loop_action [OF Cons False])
      qed
    qed
  qed
qed

lemma trained_demo_table [simp]:
  "df (trained_demo inp) = Some kc_table" "csv_reads (trained_demo inp) = 1"
  by (simp_all add: trained_demo_def)

text \<open>
  Two calls of \<open>load_dataset\<close> in a row read the file twice, the second one with the
  table already cached.
\<close>

theorem load_dataset_rereads_counterexample:
  "df (snd (load_dataset (demo []))) = Some kc_table
   \<and> csv_reads (snd (load_dataset (demo []))) = 1
   \<and> csv_reads (snd (load_dataset (snd (load_dataset (demo []))))) = 2"
  by (simp add: load_dataset_def demo_def init_def kc_csv_def Let_def)

section \<open>Failures of a menu action\<close>

lemma load_failure:
  assumes "df s = None" and "read_csv s (csv_path s) = Inl e"
  shows "fst (display_dataset_info rt s) = Inl e"
    and "fst (select_features rt s) = Inl e"
    and "fst (train_model rt s) = Inl e"
  using assms
  by (simp_all add: display_dataset_info_def select_features_def get_numeric_columns_def
      train_model_def ensure_loaded_def load_dataset_def Let_def)

lemma strip_choice:
  "strip ''1'' = ''1''" "strip ''2'' = ''2''" "strip ''3'' = ''3''" "strip ''4'' = ''4''"
  "strip ''5'' = ''5''" "strip ''6'' = ''6''"
  by code_simp+

lemma init_fields [simp]:
  "stdin (init rd fs clk inp) = inp" "df (init rd fs clk inp) = None"
  "read_csv (init rd fs clk inp) = rd" "csv_path (init rd fs clk inp) = ''kc_house_data.csv''"
  "is_trained (init rd fs clk inp) = False" "csv_reads (init rd fs clk inp) = 0"
  by (simp_all add: init_def)

text \<open>
  With no dataset file, the choice 1 ends \<open>main\<close> with FileNotFoundError, and the
  lines typed after it are never read.
\<close>

theorem load_failure_ends_session_counterexample:
  "fst (main demo_rt no_csv no_files demo_clock [''1'', ''5'', ''6'']) = Inl FileNotFoundError
   \<and> stdin (snd (main demo_rt no_csv no_files demo_clock [''1'', ''5'', ''6''])) = [''5'', ''6'']"
proof -
  let ?s0 = "init no_csv no_files demo_clock [''1'', ''5'', ''6''] :: (int, string list, string list) session"
  let ?s1 = "at_menu ?s0 [''5'', ''6'']"
  have a0: "stdin ?s0 = ''1'' # [''5'', ''6'']" by simp
  have ne: "strip ''1'' \<noteq> ''6''" by (simp add: strip_choice)
  have "menu_action demo_rt (strip ''1'') ?s1 = (Inl FileNotFoundError, ?s1\<lparr>csv_reads := Suc 0\<rparr>)"
    by (simp add: strip_choice menu_action_def display_dataset_info_def ensure_loaded_def
        load_dataset_def no_csv_def Let_def)
  then have "main_loop demo_rt ?s0 = (Inl FileNotFoundError, ?s1\<lparr>csv_reads := Suc 0\<rparr>)"
    by (simp add: main_loop_action [OF a0 ne])
  then show ?thesis by (simp add: main_def)
qed

section \<open>The prediction log\<close>

lemma LF_neq_CR [simp]: "LF \<noteq> CR" "CR \<noteq> LF"
  by (simp_all add: LF_def CR_def)

lemma readlines_from_body:
  "no_break b \<Longrightarrow> readlines_from cur (b @ LF # rest) = (cur @ b @ [LF]) # readlines_from [] rest"
  by (induction b arbitrary: cur) (auto simp: no_break_def)

lemma readlines_from_append:
  "(c = [] \<and> cur = []) \<or> (c \<noteq> [] \<and> last c = LF) \<Longrightarrow>
     readlines_from cur (c @ d) = readlines_from cur c @ readlines_from [] d"
proof (induction cur c rule: readlines_from.induct)
  case (1 cur)
  then show ?case by simp
next
  case (2 cur x cs)
  then have l: "last (x # cs) = LF" by simp
  show ?case
  proof (cases "x = LF")
    case True
    then show ?thesis using 2 l by (cases cs) auto
  next
    case nl: False
    then have cs: "cs \<noteq> []" "last cs = LF" using l by (auto split: if_splits)
    show ?thesis
    proof (cases "x = CR")
      case False
      then show ?thesis using 2 nl cs by simp
    next
      case True
      obtain y ys where ys: "cs = y # ys" using cs by (cases cs) auto
      show ?thesis
      proof (cases "y = LF")
        case False
        then show ?thesis using 2 nl True ys cs by simp
      next
        case yl: True
        then show ?thesis using 2 nl True ys cs by (cases ys) auto
      qed
    qed
  qed
qed

lemma readlines_concat:
  "\<forall>b \<in> set bs. no_break b \<Longrightarrow> readlines (concat (map (\<lambda>b. b @ [LF]) bs)) = map (\<lambda>b. b @ [LF]) bs"
  by (induction bs) (simp_all add: readlines_def readlines_from_body)

lemma readlines_append_lines:
  assumes "c = [] \<or> last c = LF" and "\<forall>b \<in> set bs. no_break b"
  shows "readlines (c @ concat (map (\<lambda>b. b @ [LF]) bs)) = readlines c @ map (\<lambda>b. b @ [LF]) bs"
proof -
  have "(c = [] \<and> ([] :: string) = []) \<or> (c \<noteq> [] \<and> last c = LF)" using assms(1) by auto
  then have "readlines_from [] (c @ concat (map (\<lambda>b. b @ [LF]) bs))
      = readlines_from [] c @ readlines_from [] (concat (map (\<lambda>b. b @ [LF]) bs))"
    by (rule readlines_from_append)
  then show ?thesis using readlines_concat [OF assms(2)] by (simp add: readlines_def)
qed

lemma save_prediction_log:
  "log_text (save_prediction rt vals p s) = log_text s @ log_line rt (clock s (ticks s)) vals p @ [LF]"
  "clock (save_prediction rt vals p s) = clock s"
  "ticks (save_prediction rt vals p s) = Suc (ticks s)"
  by (simp_all add: save_prediction_def log_text_def append_file_def Let_def)

lemma save_all_log:
  "log_text (save_all rt rs s)
     = log_text s @ concat (map (\<lambda>b. b @ [LF]) (log_lines rt (clock s) (ticks s) rs))"
proof (induction rs arbitrary: s)
  case Nil
  then show ?case by simp
next
  case (Cons r rs)
  obtain vals p where r: "r = (vals, p)" by (cases r)
  show ?case
    using Cons.IH [of "save_prediction rt vals p s"] by (simp add: r save_prediction_log)
qed

lemma history_log_text: "history s = readlines (log_text s)"
  by (simp add: history_def log_text_def readlines_def split: option.splits)

lemma length_log_lines [simp]: "length (log_lines rt clk t rs) = length rs"
  by (induction rs arbitrary: t) auto

lemma log_lines_nth:
  "i < length rs \<Longrightarrow>
     log_lines rt clk t rs ! i = log_line rt (clk (t + i)) (fst (rs ! i)) (snd (rs ! i))"
proof (induction rs arbitrary: t i)
  case Nil
  then show ?case by simp
next
  case (Cons r rs)
  obtain vals p where r: "r = (vals, p)" by (cases r)
  show ?case using Cons by (cases i) (simp_all add: r)
qed

lemma sublist_join_sep: "x \<in> set xs \<Longrightarrow> sublist x (join_sep sep xs)"
proof (induction sep xs rule: join_sep.induct)
  case (1 sep)
  then show ?case by simp
next
  case (2 sep p)
  then show ?case by simp
next
  case (3 sep p q ps)
  show ?case
  proof (cases "x = p")
    case True
    then show ?thesis by simp
  next
    case False
    then have "sublist x (join_sep sep (q # ps))" using 3 by simp
    then show ?thesis by (simp add: sublist_append)
  qed
qed


lemma print_history_stdout:
  "stdout (print_history i ls s)
     = stdout s @ map (\<lambda>(j, l). ''  '' @ str_nat j @ ''. '' @ strip l) (zip [i..<i + length ls] ls)"
proof (induction ls arbitrary: i s)
  case Nil
  then show ?case by simp
next
  case (Cons l ls)
  have "[i..<i + length (l # ls)] = i # [Suc i..<Suc i + length ls]"
    by (subst upt_rec) simp
  then show ?case using Cons.IH [of "Suc i"] by simp
qed

lemma load_predictions_stdout:
  "stdout (load_predictions s)
     = stdout s @ [banner, ''           PREDICTION HISTORY'', rule60 CHR ''='']
       @ (if history s = [] then [''  No predictions recorded yet.'']
          else map (\<lambda>(j, l). ''  '' @ str_nat j @ ''. '' @ strip l)
                 (zip [1..<1 + length (history s)] (history s)))
       @ [rule60 CHR ''='']"
  by (simp add: load_predictions_def history_def print_history_stdout Let_def
      split: option.splits)

lemma sublist_in_context: "sublist x m \<Longrightarrow> sublist x (p @ m @ q)"
  by (simp add: sublist_append)

lemma log_line_contains_pair:
  assumes "(k, v) \<in> set vals"
  shows "sublist (k @ ''='' @ str_of_float rt v) (log_line rt ts vals p @ [LF])"
proof -
  have "k @ ''='' @ str_of_float rt v \<in> set (map (\<lambda>(k, v). k @ ''='' @ str_of_float rt v) vals)"
    using assms by force
  then have "sublist (k @ ''='' @ str_of_float rt v) (features_str rt vals)"
    unfolding features_str_def by (rule sublist_join_sep)
  then have "sublist (k @ ''='' @ str_of_float rt v)
      ((ts @ '' | '') @ features_str rt vals @ ('' | Predicted: $'' @ fmt_price rt p @ [LF]))"
    by (rule sublist_in_context)
  then show ?thesis by (simp add: log_line_def)
qed

lemma log_line_contains_price:
  "sublist (''Predicted: $'' @ fmt_price rt p) (log_line rt ts vals p @ [LF])"
proof -
  have "sublist (''Predicted: $'' @ fmt_price rt p)
      ((ts @ '' | '' @ features_str rt vals @ '' | '') @ (''Predicted: $'' @ fmt_price rt p) @ [LF])"
    by (rule sublist_appendI)
  then show ?thesis by (simp add: log_line_def)
qed

text \<open>
  Claim C7, as amended. Start from a log that is absent, empty or ends with a line feed,
  and append N records none of whose formatted lines contains a line feed or a carriage
  return. Then the history read back is the old history followed by the N new lines in
  the order of the appends, so N lines more than before and the old lines untouched; the
  line of each record contains every \<open>name=value\<close> pair supplied and the text
  \<open>Predicted: $\<close> followed by the formatted price; and \<open>load_predictions\<close> prints
  exactly these lines, numbered from 1 and stripped.
\<close>

theorem log_round_trip:
  assumes "log_text s = [] \<or> last (log_text s) = LF"
    and "\<forall>b \<in> set (log_lines rt (clock s) (ticks s) rs). no_break b"
  shows "history (save_all rt rs s)
           = history s @ map (\<lambda>b. b @ [LF]) (log_lines rt (clock s) (ticks s) rs)
       \<and> length (history (save_all rt rs s)) = length (history s) + length rs
       \<and> (\<forall>i < length rs.
            (\<forall>(k, v) \<in> set (fst (rs ! i)).
               sublist (k @ ''='' @ str_of_float rt v)
                 (history (save_all rt rs s) ! (length (history s) + i)))
            \<and> sublist (''Predicted: $'' @ fmt_price rt (snd (rs ! i)))
                 (history (save_all rt rs s) ! (length (history s) + i)))
       \<and> stdout (load_predictions (save_all rt rs s))
           = stdout (save_all rt rs s) @ [banner, ''           PREDICTION HISTORY'', rule60 CHR ''='']
             @ (if history (save_all rt rs s) = [] then [''  No predictions recorded yet.'']
                else map (\<lambda>(j, l). ''  '' @ str_nat j @ ''. '' @ strip l)
                       (zip [1..<1 + length (history (save_all rt rs s))]
                            (history (save_all rt rs s))))
             @ [rule60 CHR ''='']"
proof -
  let ?bs = "log_lines rt (clock s) (ticks s) rs"
  have h: "history (save_all rt rs s) = history s @ map (\<lambda>b. b @ [LF]) ?bs"
    using readlines_append_lines [OF assms]
    by (simp add: history_log_text save_all_log)
  have n: "\<And>i. i < length rs \<Longrightarrow>
      history (save_all rt rs s) ! (length (history s) + i)
        = log_line rt (clock s (ticks s + i)) (fst (rs ! i)) (snd (rs ! i)) @ [LF]"
    by (simp add: h log_lines_nth)
  have c: "\<forall>i < length rs.
            (\<forall>(k, v) \<in> set (fst (rs ! i)).
               sublist (k @ ''='' @ str_of_float rt v)
                 (history (save_all rt rs s) ! (length (history s) + i)))
            \<and> sublist (''Predicted: $'' @ fmt_price rt (snd (rs ! i)))
                 (history (save_all rt rs s) ! (length (history s) + i))"
  proof (intro allI impI conjI)
    fix i
    assume i: "i < length rs"
    show "\<forall>(k, v) \<in> set (fst (rs ! i)).
            sublist (k @ ''='' @ str_of_float rt v)
              (history (save_all rt rs s) ! (length (history s) + i))"
    proof clarify
      fix k v
      assume "(k, v) \<in> set (fst (rs ! i))"
      then have "sublist (k @ ''='' @ str_of_float rt v)
          (log_line rt (clock s (ticks s + i)) (fst (rs ! i)) (snd (rs ! i)) @ [LF])"
        by (rule log_line_contains_pair)
      then show "sublist (k @ ''='' @ str_of_float rt v)
          (history (save_all rt rs s) ! (length (history s) + i))"
        by (simp add: n [OF i])
    qed
    have "sublist (''Predicted: $'' @ fmt_price rt (snd (rs ! i)))
        (log_line rt (clock s (ticks s + i)) (fst (rs ! i)) (snd (rs ! i)) @ [LF])"
      by (rule log_line_contains_price)
    then show "sublist (''Predicted: $'' @ fmt_price rt (snd (rs ! i)))
        (history (save_all rt rs s) ! (length (history s) + i))"
      by (simp add: n [OF i])
  qed
  show ?thesis
    using h c by (simp add: load_predictions_stdout)
qed


lemma demo_log [simp]:
  "log_text (demo inp) = []" "history (demo inp) = []"
  "clock (demo inp) = demo_clock" "ticks (demo inp) = 0"
  by (simp_all add: log_text_def history_def demo_def init_def no_files_def)

theorem log_round_trip_witness:
  "log_text (demo []) = []
   \<and> log_lines demo_rt demo_clock 0
         [([(''bedrooms'', 3)], 5), ([(''bedrooms'', 4), (''bathrooms'', 2)], 700)]
       = [''2024-05-01 12:00:00 | bedrooms=3 | Predicted: $5'',
          ''2024-05-01 12:00:00 | bedrooms=4, bathrooms=2 | Predicted: $700'']
   \<and> no_break ''2024-05-01 12:00:00 | bedrooms=3 | Predicted: $5''
   \<and> no_break ''2024-05-01 12:00:00 | bedrooms=4, bathrooms=2 | Predicted: $700''
   \<and> history (save_all demo_rt
                [([(''bedrooms'', 3)], 5), ([(''bedrooms'', 4), (''bathrooms'', 2)], 700)] (demo []))
       = [''2024-05-01 12:00:00 | bedrooms=3 | Predicted: $5'' @ [LF],
          ''2024-05-01 12:00:00 | bedrooms=4, bathrooms=2 | Predicted: $700'' @ [LF]]"
proof -
  let ?rs = "[([(''bedrooms'', 3)], 5), ([(''bedrooms'', 4), (''bathrooms'', 2)], 700)]
      :: ((string \<times> int) list \<times> int) list"
  have l: "log_lines demo_rt demo_clock 0 ?rs
      = [''2024-05-01 12:00:00 | bedrooms=3 | Predicted: $5'',
         ''2024-05-01 12:00:00 | bedrooms=4, bathrooms=2 | Predicted: $700'']"
    by code_simp
  have a: "log_text (demo [] :: (int, string list, string list) session) = []
      \<or> last (log_text (demo [] :: (int, string list, string list) session)) = LF"
    by simp
  have b: "\<forall>b \<in> set (log_lines demo_rt demo_clock 0 ?rs). no_break b"
    unfolding l by code_simp
  then have b': "\<forall>b \<in> set (log_lines demo_rt (clock (demo [])) (ticks (demo [])) ?rs). no_break b"
    by simp
  have n: "no_break ''2024-05-01 12:00:00 | bedrooms=3 | Predicted: $5''"
    "no_break ''2024-05-01 12:00:00 | bedrooms=4, bathrooms=2 | Predicted: $700''"
    by code_simp+
  have h: "history (save_all demo_rt ?rs (demo []))
      = history (demo []) @ map (\<lambda>b. b @ [LF])
          (log_lines demo_rt (clock (demo [])) (ticks (demo [])) ?rs)"
    using log_round_trip [OF a b'] by (rule conjunct1)
  have h2: "history (save_all demo_rt ?rs (demo []))
      = [''2024-05-01 12:00:00 | bedrooms=3 | Predicted: $5'' @ [LF],
         ''2024-05-01 12:00:00 | bedrooms=4, bathrooms=2 | Predicted: $700'' @ [LF]]"
    unfolding h demo_log l by simp
  have z: "log_text (demo []) = []" by simp
  show ?thesis
    using z l n h2 by - (intro conjI, assumption+)
qed

lemma stale_demo_log:
  "log_text stale_demo = ''2024-04-30 09:00:00 | bedrooms=3 | Predicted: $5''"
  "clock stale_demo = demo_clock" "ticks stale_demo = 0"
  by (simp_all add: stale_demo_def log_text_def stale_log_def demo_def init_def)

text \<open>
  From a log whose last line has no line feed, one append gives a history of one line,
  as before: the new record continues the old line.
\<close>

theorem log_round_trip_counterexample:
  "length (history stale_demo) = 1
   \<and> length (history (save_all demo_rt [([(''bedrooms'', 4)], 7)] stale_demo)) = 1"
proof -
  have a: "length (readlines ''2024-04-30 09:00:00 | bedrooms=3 | Predicted: $5'') = 1"
    by code_simp
  have b: "length (readlines (''2024-04-30 09:00:00 | bedrooms=3 | Predicted: $5''
      @ concat (map (\<lambda>b. b @ [LF]) (log_lines demo_rt demo_clock 0 [([(''bedrooms'', 4)], 7)])))) = 1"
    by code_simp
  have t: "log_text (save_all demo_rt [([(''bedrooms'', 4)], 7)] stale_demo)
      = ''2024-04-30 09:00:00 | bedrooms=3 | Predicted: $5''
        @ concat (map (\<lambda>b. b @ [LF]) (log_lines demo_rt demo_clock 0 [([(''bedrooms'', 4)], 7)]))"
    by (simp only: save_all_log stale_demo_log)
  show ?thesis
    unfolding history_log_text t stale_demo_log(1) using a b by (rule conjI)
qed

section \<open>The dataset file is read once\<close>

lemma ensure_loaded_first:
  assumes "df s = None"
  shows "csv_reads (snd (ensure_loaded s)) = Suc (csv_reads s)"
    and "read_csv s (csv_path s) = Inr t \<Longrightarrow> ensure_loaded s
           = (Inr t, s\<lparr>csv_reads := Suc (csv_reads s), df := Some t\<rparr>)"
  using assms
  by (simp_all add: ensure_loaded_def load_dataset_def Let_def split: sum.splits)

lemma ensure_loaded_grows:
  "ensure_loaded s = (r, s1) \<Longrightarrow> csv_reads s \<le> csv_reads s1"
  by (auto simp: ensure_loaded_def load_dataset_def Let_def split: option.splits sum.splits)

lemma operations_read_like_ensure_loaded:
  "csv_reads (snd (display_dataset_info rt s)) = csv_reads (snd (ensure_loaded s))"
  "df (snd (display_dataset_info rt s)) = df (snd (ensure_loaded s))"
  "csv_reads (snd (get_numeric_columns s)) = csv_reads (snd (ensure_loaded s))"
  "df (snd (get_numeric_columns s)) = df (snd (ensure_loaded s))"
  "csv_reads (snd (select_features rt s)) = csv_reads (snd (ensure_loaded s))"
  "df (snd (select_features rt s)) = df (snd (ensure_loaded s))"
  "csv_reads (snd (train_model rt s)) = csv_reads (snd (ensure_loaded s))"
  "df (snd (train_model rt s)) = df (snd (ensure_loaded s))"
proof -
  obtain r s1 where el: "ensure_loaded s = (r, s1)" by (cases "ensure_loaded s")
  show "csv_reads (snd (display_dataset_info rt s)) = csv_reads (snd (ensure_loaded s))"
    "df (snd (display_dataset_info rt s)) = df (snd (ensure_loaded s))"
    using display_dataset_info_reads [OF el, of rt "fst (display_dataset_info rt s)"
        "snd (display_dataset_info rt s)"] el by simp_all
  show "csv_reads (snd (get_numeric_columns s)) = csv_reads (snd (ensure_loaded s))"
    "df (snd (get_numeric_columns s)) = df (snd (ensure_loaded s))"
    using el by (cases r; simp add: get_numeric_columns_def)+
  show "csv_reads (snd (select_features rt s)) = csv_reads (snd (ensure_loaded s))"
    "df (snd (select_features rt s)) = df (snd (ensure_loaded s))"
    using select_features_reads [OF el, of rt "fst (select_features rt s)"
        "snd (select_features rt s)"] el by simp_all
  show "csv_reads (snd (train_model rt s)) = csv_reads (snd (ensure_loaded s))"
    "df (snd (train_model rt s)) = df (snd (ensure_loaded s))"
    using train_model_reads [OF el, of rt "fst (train_model rt s)"
        "snd (train_model rt s)"] el by simp_all
qed

lemma menu_action_grows:
  "csv_reads s \<le> csv_reads (snd (menu_action rt choice s))"
proof -
  have g: "csv_reads s \<le> csv_reads (snd (ensure_loaded s))"
    using ensure_loaded_grows [of s "fst (ensure_loaded s)" "snd (ensure_loaded s)"] by simp
  have p: "csv_reads (snd (case predict_price rt s of (Inl e, s1) \<Rightarrow> (Inl e, s1)
      | (Inr x, s1) \<Rightarrow> (Inr (), s1))) = csv_reads (snd (predict_price rt s))"
    by (simp split: prod.splits sum.splits)
  show ?thesis
    using g predict_price_reads [of rt s]
    by (simp add: menu_action_def operations_read_like_ensure_loaded p)
qed

lemma menu_action_first:
  assumes "df s = None" and "choice \<in> {''1'', ''2'', ''3''}"
  shows "csv_reads (snd (menu_action rt choice s)) = Suc (csv_reads s)"
  using assms ensure_loaded_first(1) [OF assms(1)]
  by (auto simp: menu_action_def operations_read_like_ensure_loaded)

lemma main_loop_grows:
  "csv_reads s \<le> csv_reads (snd (main_loop rt s))"
proof (induction "length (stdin s)" arbitrary: s rule: less_induct)
  case less
  show ?case
  proof (cases "stdin s")
    case Nil
    then show ?thesis by (simp add: main_loop_eof)
  next
    case (Cons line rest)
    show ?thesis
    proof (cases "strip line = ''6''")
      case True
      then show ?thesis using Cons by (simp add: main_loop_exit)
    next
      case False
      obtain r s2 where act: "menu_action rt (strip line) (at_menu s rest) = (r, s2)"
        by (cases "menu_action rt (strip line) (at_menu s rest)")
      have g: "csv_reads s \<le> csv_reads s2"
        using menu_action_grows [of "at_menu s rest" rt "strip line"] act by simp
      show ?thesis
      proof (cases r)
        case (Inl e)
        then show ?thesis using g act by (simp add: main_loop_action [OF Cons False])
      next
        case (Inr u)
        have "length (stdin s2) \<le> length (stdin (at_menu s rest))"
          using menu_action_stdin [of rt "strip line" "at_menu s rest"] act by simp
        then have "length (stdin s2) < length (stdin s)" using Cons by simp
        then have "csv_reads s2 \<le> csv_reads (snd (main_loop rt s2))" by (rule less.hyps)
        then show ?thesis using g act Inr by (simp add: main_loop_action [OF Cons False])
      qed
    qed
  qed
qed

lemma main_first_action_reads:
  assumes "inp = line # rest" and "strip line \<in> {''1'', ''2'', ''3''}"
  shows "csv_reads (snd (main rt rd fs clk inp)) = 1"
proof -
  let ?s0 = "init rd fs clk inp :: ('a, 'b, 'c) session"
  have st: "stdin ?s0 = line # rest" using assms(1) by simp
  have ne: "strip line \<noteq> ''6''" using assms(2) by auto
  obtain r s2 where act: "menu_action rt (strip line) (at_menu ?s0 rest) = (r, s2)"
    by (cases "menu_action rt (strip line) (at_menu ?s0 rest)")
  have one: "csv_reads s2 = 1"
    using menu_action_first [of "at_menu ?s0 rest" "strip line" rt] assms(2) act by simp
  have lo: "loaded_once (at_menu ?s0 rest)" by (simp add: loaded_once_def)
  note b = menu_action_reads [OF lo act]
  show ?thesis
  proof (cases r)
    case (Inl e)
    then show ?thesis using one act by (simp add: main_def main_loop_action [OF st ne])
  next
    case (Inr u)
    then have "loaded_once s2" using b by blast
    then have "csv_reads (snd (main_loop rt s2)) \<le> 1" by (rule main_loop_reads)
    moreover have "1 \<le> csv_reads (snd (main_loop rt s2))"
      using main_loop_grows [of s2 rt] one by simp
    ultimately show ?thesis
      using act Inr by (simp add: main_def main_loop_action [OF st ne])
  qed
qed

text \<open>
  Claim C9, as amended. In a session run by \<open>main\<close> the dataset file is read at most
  once, and exactly once when the first choice is 1, 2 or 3. While no table is cached,
  \<open>display_dataset_info\<close>, \<open>get_numeric_columns\<close>, \<open>select_features\<close> and
  \<open>train_model\<close> each read the file once, and cache the table when the read succeeds.
  Once a table is cached they read nothing and leave it as it is. \<open>load_dataset\<close> itself
  has no such guard: every call of it reads the file again, and a read that succeeds
  replaces the cached table.
\<close>

theorem csv_read_at_most_once:
  "csv_reads (snd (main rt rd fs clk inp)) \<le> 1
   \<and> (inp = line # rest \<and> strip line \<in> {''1'', ''2'', ''3''}
        \<longrightarrow> csv_reads (snd (main rt rd fs clk inp)) = 1)
   \<and> (df s = None \<longrightarrow>
        csv_reads (snd (display_dataset_info rt s)) = Suc (csv_reads s)
        \<and> csv_reads (snd (get_numeric_columns s)) = Suc (csv_reads s)
        \<and> csv_reads (snd (select_features rt s)) = Suc (csv_reads s)
        \<and> csv_reads (snd (train_model rt s)) = Suc (csv_reads s))
   \<and> (df s = None \<and> read_csv s (csv_path s) = Inr t \<longrightarrow>
        df (snd (display_dataset_info rt s)) = Some t
        \<and> df (snd (get_numeric_columns s)) = Some t
        \<and> df (snd (select_features rt s)) = Some t
        \<and> df (snd (train_model rt s)) = Some t)
   \<and> (df s \<noteq> None \<longrightarrow>
        csv_reads (snd (display_dataset_info rt s)) = csv_reads s
        \<and> csv_reads (snd (get_numeric_columns s)) = csv_reads s
        \<and> csv_reads (snd (select_features rt s)) = csv_reads s
        \<and> csv_reads (snd (train_model rt s)) = csv_reads s
        \<and> df (snd (display_dataset_info rt s)) = df s
        \<and> df (snd (get_numeric_columns s)) = df s
        \<and> df (snd (select_features rt s)) = df s
        \<and> df (snd (train_model rt s)) = df s)
   \<and> csv_reads (snd (load_dataset s)) = Suc (csv_reads s)
   \<and> (read_csv s (csv_path s) = Inr t \<longrightarrow> df (snd (load_dataset s)) = Some t)"
proof (intro conjI impI)
  have "loaded_once (init rd fs clk inp :: ('a, 'b, 'c) session)"
    by (simp add: loaded_once_def init_def)
  then show "csv_reads (snd (main rt rd fs clk inp)) \<le> 1"
    unfolding main_def by (rule main_loop_reads)
next
  assume "inp = line # rest \<and> strip line \<in> {''1'', ''2'', ''3''}"
  then show "csv_reads (snd (main rt rd fs clk inp)) = 1"
    using main_first_action_reads by blast
next
  assume n: "df s = None"
  show "csv_reads (snd (display_dataset_info rt s)) = Suc (csv_reads s)"
    "csv_reads (snd (get_numeric_columns s)) = Suc (csv_reads s)"
    "csv_reads (snd (select_features rt s)) = Suc (csv_reads s)"
    "csv_reads (snd (train_model rt s)) = Suc (csv_reads s)"
    by (simp_all add: operations_read_like_ensure_loaded ensure_loaded_first(1) [OF n])
next
  assume "df s = None \<and> read_csv s (csv_path s) = Inr t"
  then have "ensure_loaded s = (Inr t, s\<lparr>csv_reads := Suc (csv_reads s), df := Some t\<rparr>)"
    using ensure_loaded_first(2) by blast
  then show "df (snd (display_dataset_info rt s)) = Some t"
    "df (snd (get_numeric_columns s)) = Some t"
    "df (snd (select_features rt s)) = Some t"
    "df (snd (train_model rt s)) = Some t"
    by (simp_all add: operations_read_like_ensure_loaded)
next
  assume "df s \<noteq> None"
  then obtain t where "ensure_loaded s = (Inr t, s)"
    using ensure_loaded_cached by fastforce
  then show "csv_reads (snd (display_dataset_info rt s)) = csv_reads s"
    "csv_reads (snd (get_numeric_columns s)) = csv_reads s"
    "csv_reads (snd (select_features rt s)) = csv_reads s"
    "csv_reads (snd (train_model rt s)) = csv_reads s"
    "df (snd (display_dataset_info rt s)) = df s"
    "df (snd (get_numeric_columns s)) = df s"
    "df (snd (select_features rt s)) = df s"
    "df (snd (train_model rt s)) = df s"
    by (simp_all add: operations_read_like_ensure_loaded)
next
  show "csv_reads (snd (load_dataset s)) = Suc (csv_reads s)"
    by (simp add: load_dataset_def Let_def split: sum.splits)
next
  assume "read_csv s (csv_path s) = Inr t"
  then show "df (snd (load_dataset s)) = Some t"
    by (simp add: load_dataset_def Let_def)
qed

lemma demo_table [simp]:
  "df (demo inp) = None" "read_csv (demo inp) (csv_path (demo inp)) = Inr kc_table"
  "csv_reads (demo inp) = 0"
  by (simp_all add: demo_def init_def kc_csv_def)

theorem csv_read_at_most_once_witness:
  "strip ''1'' = ''1''
   \<and> csv_reads (snd (main demo_rt kc_csv no_files demo_clock [''1'', ''1'', ''3'', ''6''])) = 1
   \<and> df (demo [''1'']) = None
   \<and> read_csv (demo [''1'']) (csv_path (demo [''1''])) = Inr kc_table
   \<and> csv_reads (snd (display_dataset_info demo_rt (demo [''1'']))) = 1
   \<and> df (snd (display_dataset_info demo_rt (demo [''1'']))) = Some kc_table
   \<and> csv_reads (snd (train_model demo_rt (demo [''1'']))) = 1
   \<and> df (trained_demo [''1'']) = Some kc_table
   \<and> csv_reads (trained_demo [''1'']) = 1
   \<and> csv_reads (snd (display_dataset_info demo_rt (trained_demo [''1'']))) = 1
   \<and> csv_reads (snd (select_features demo_rt (trained_demo [''1'']))) = 1
   \<and> csv_reads (snd (train_model demo_rt (trained_demo [''1'']))) = 1
   \<and> csv_reads (snd (load_dataset (trained_demo [''1'']))) = 2"
proof -
  let ?inp = "[''1'', ''1'', ''3'', ''6'']"
  have m: "csv_reads (snd (main demo_rt kc_csv no_files demo_clock ?inp)) = 1"
    using csv_read_at_most_once
      [of demo_rt kc_csv no_files demo_clock ?inp "''1''" "[''1'', ''3'', ''6'']"]
    by (simp add: strip_choice)
  have u: "csv_reads (snd (display_dataset_info demo_rt (demo [''1'']))) = 1
      \<and> df (snd (display_dataset_info demo_rt (demo [''1'']))) = Some kc_table
      \<and> csv_reads (snd (train_model demo_rt (demo [''1'']))) = 1"
    using csv_read_at_most_once
      [of demo_rt kc_csv no_files demo_clock "[]" _ _ "demo [''1'']" kc_table]
    by simp
  have c: "csv_reads (snd (display_dataset_info demo_rt (trained_demo [''1'']))) = 1
      \<and> csv_reads (snd (select_features demo_rt (trained_demo [''1'']))) = 1
      \<and> csv_reads (snd (train_model demo_rt (trained_demo [''1'']))) = 1
      \<and> csv_reads (snd (load_dataset (trained_demo [''1'']))) = 2"
    using csv_read_at_most_once
      [of demo_rt kc_csv no_files demo_clock "[]" _ _ "trained_demo [''1'']"]
    by simp
  show ?thesis using m u c by (simp add: strip_choice)
qed

section \<open>What returns to the menu\<close>

lemma read_value_raises_eof:
  "fst (read_value rt feat s) = Inl e \<Longrightarrow> e = EOFError"
proof (induction "length (stdin s)" arbitrary: s rule: less_induct)
  case less
  show ?case
  proof (cases "stdin s")
    case Nil
    then show ?thesis using less.prems by (subst (asm) read_value_step) simp
  next
    case (Cons l ls)
    show ?thesis
    proof (cases "float_of_str rt l")
      case (Some v)
      then show ?thesis using less.prems Cons by (subst (asm) read_value_step) simp
    next
      case None
      let ?s1 = "py_print ''    Please enter a valid number.''
                   ((py_print (''    '' @ feat @ '': '') s)\<lparr>stdin := ls\<rparr>)"
      have "length (stdin ?s1) < length (stdin s)" using Cons by simp
      moreover have "fst (read_value rt feat ?s1) = Inl e"
        using less.prems Cons None by (subst (asm) read_value_step) simp
      ultimately show ?thesis by (rule less.hyps)
    qed
  qed
qed

lemma read_value_again:
  assumes "stdin s = l # ls" and "float_of_str rt l = None"
  shows "read_value rt feat s =
           read_value rt feat
             (py_print ''    Please enter a valid number.''
                ((py_print (''    '' @ feat @ '': '') s)\<lparr>stdin := ls\<rparr>))"
  using assms by (subst read_value_step) simp

lemma select_features_returns:
  assumes "get_numeric_columns s = (Inr av, s1)" and "stdin s = l # ls"
  shows "fst (select_features rt s) = Inr ()" and "stdin (snd (select_features rt s)) = ls"
proof -
  have "stdin s1 = l # ls"
    using assms get_numeric_columns_keeps(1) [OF assms(1)] by simp
  then show "fst (select_features rt s) = Inr ()" and "stdin (snd (select_features rt s)) = ls"
    using assms(1) by (simp_all add: select_features_def py_input_def Let_def)
qed

lemma train_model_fit_failure:
  assumes "ensure_loaded s = (Inr t, s1)"
    and "set (features s) \<subseteq> fst ` set (columns t)"
    and "''price'' \<in> fst ` set (columns t)"
    and "sk_split rt t (features s) = Inr (train, holdout)"
    and "sk_fit rt train = Inl e"
  shows "fst (train_model rt s) = Inl e"
proof -
  have "features s1 = features s" using ensure_loaded_keeps(2) [OF assms(1)] .
  then show ?thesis using assms by (simp add: train_model_def Let_def)
qed

lemma load_predictions_no_file:
  assumes "files s (data_file s) = None"
  shows "stdout (load_predictions s)
           = stdout s @ [banner, ''           PREDICTION HISTORY'', rule60 CHR ''='',
                         ''  No predictions recorded yet.'', rule60 CHR ''='']"
  using assms by (simp add: load_predictions_stdout history_def)

text \<open>
  Claim C6, as amended. The menu loop catches nothing: control returns to the menu
  exactly when the menu action returns, and an exception that leaves the action leaves
  \<open>main\<close> with it and ends the session. So a dataset file that cannot be read ends the
  session at the first of the actions 1, 2 and 3, and an error raised by the fit ends it
  at action 3. What the operations handle themselves returns to the menu: predicting
  while untrained prints a message; an index list with an unparsable token selects the
  default features; a non-numeric value is asked for again, the input loop never raising
  ValueError; and the history is shown, with a message when there is no log file.
\<close>

theorem menu_action_failure:
  assumes "stdin s = line # rest"
  shows "(strip line \<noteq> ''6'' \<and> menu_action rt (strip line) (at_menu s rest) = (Inl e, s2)
            \<longrightarrow> main_loop rt s = (Inl e, s2))
       \<and> (strip line \<noteq> ''6'' \<and> menu_action rt (strip line) (at_menu s rest) = (Inr u, s2)
            \<longrightarrow> main_loop rt s = main_loop rt s2)
       \<and> (df s = None \<and> read_csv s (csv_path s) = Inl e \<and> strip line \<in> {''1'', ''2'', ''3''}
            \<longrightarrow> fst (main_loop rt s) = Inl e)
       \<and> (strip line = ''3'' \<and> ensure_loaded (at_menu s rest) = (Inr t, s1)
           \<and> set (features s) \<subseteq> fst ` set (columns t) \<and> ''price'' \<in> fst ` set (columns t)
           \<and> sk_split rt t (features s) = Inr (train, holdout) \<and> sk_fit rt train = Inl e
            \<longrightarrow> fst (main_loop rt s) = Inl e)
       \<and> (strip line = ''4'' \<and> \<not> is_trained s
            \<longrightarrow> main_loop rt s =
                  main_loop rt (py_print (LF # ''  [!] Model is not trained yet. Please train first.'')
                                  (at_menu s rest)))
       \<and> (strip line = ''2'' \<and> get_numeric_columns (at_menu s rest) = (Inr available, s1)
           \<and> rest = typed # rest' \<and> strip typed \<noteq> []
           \<and> (\<exists>x \<in> set (split_sep CHR '','' (strip typed)).
                 \<forall>i. py_int (int_max_str_digits rt) (strip x) \<noteq> Inr i)
            \<longrightarrow> main_loop rt s = main_loop rt (snd (select_features rt (at_menu s rest)))
                \<and> features (snd (select_features rt (at_menu s rest))) = DEFAULT_FEATURES
                \<and> stdin (snd (select_features rt (at_menu s rest))) = rest')
       \<and> (stdin s0 = l # ls \<and> float_of_str rt l = None
            \<longrightarrow> read_value rt feat s0 =
                  read_value rt feat
                    (py_print ''    Please enter a valid number.''
                       ((py_print (''    '' @ feat @ '': '') s0)\<lparr>stdin := ls\<rparr>)))
       \<and> fst (read_value rt feat s0) \<noteq> Inl ValueError
       \<and> (strip line = ''5''
            \<longrightarrow> main_loop rt s = main_loop rt (load_predictions (at_menu s rest)))
       \<and> (files s (data_file s) = None
            \<longrightarrow> stdout (load_predictions (at_menu s rest))
                  = stdout (at_menu s rest)
                    @ [banner, ''           PREDICTION HISTORY'', rule60 CHR ''='',
                       ''  No predictions recorded yet.'', rule60 CHR ''=''])"
proof (intro conjI impI)
  assume "strip line \<noteq> ''6'' \<and> menu_action rt (strip line) (at_menu s rest) = (Inl e, s2)"
  then show "main_loop rt s = (Inl e, s2)"
    by (simp add: main_loop_action [OF assms])
next
  assume "strip line \<noteq> ''6'' \<and> menu_action rt (strip line) (at_menu s rest) = (Inr u, s2)"
  then show "main_loop rt s = main_loop rt s2"
    by (simp add: main_loop_action [OF assms])
next
  assume h: "df s = None \<and> read_csv s (csv_path s) = Inl e \<and> strip line \<in> {''1'', ''2'', ''3''}"
  then have ne: "strip line \<noteq> ''6''" by auto
  have "df (at_menu s rest) = None" "read_csv (at_menu s rest) (csv_path (at_menu s rest)) = Inl e"
    using h by simp_all
  note f = load_failure [OF this]
  have "fst (menu_action rt (strip line) (at_menu s rest)) = Inl e"
    using h f by (auto simp: menu_action_def)
  then obtain s' where "menu_action rt (strip line) (at_menu s rest) = (Inl e, s')"
    by (cases "menu_action rt (strip line) (at_menu s rest)") simp
  then show "fst (main_loop rt s) = Inl e"
    by (simp add: main_loop_action [OF assms ne])
next
  assume h: "strip line = ''3'' \<and> ensure_loaded (at_menu s rest) = (Inr t, s1)
           \<and> set (features s) \<subseteq> fst ` set (columns t) \<and> ''price'' \<in> fst ` set (columns t)
           \<and> sk_split rt t (features s) = Inr (train, holdout) \<and> sk_fit rt train = Inl e"
  then have ne: "strip line \<noteq> ''6''" by simp
  have "fst (train_model rt (at_menu s rest)) = Inl e"
    using h train_model_fit_failure [of "at_menu s rest" t s1 rt train holdout e] by simp
  then have "fst (menu_action rt (strip line) (at_menu s rest)) = Inl e"
    using h by (simp add: menu_action_def)
  then obtain s' where "menu_action rt (strip line) (at_menu s rest) = (Inl e, s')"
    by (cases "menu_action rt (strip line) (at_menu s rest)") simp
  then show "fst (main_loop rt s) = Inl e"
    by (simp add: main_loop_action [OF assms ne])
next
  assume h: "strip line = ''4'' \<and> \<not> is_trained s"
  then have ne: "strip line \<noteq> ''6''" by simp
  have "menu_action rt (strip line) (at_menu s rest)
      = (Inr (), py_print (LF # ''  [!] Model is not trained yet. Please train first.'') (at_menu s rest))"
    using h by (simp add: menu_action_def predict_price_def)
  then show "main_loop rt s =
      main_loop rt (py_print (LF # ''  [!] Model is not trained yet. Please train first.'') (at_menu s rest))"
    by (simp add: main_loop_action [OF assms ne])
next
  assume h: "strip line = ''2'' \<and> get_numeric_columns (at_menu s rest) = (Inr available, s1)
           \<and> rest = typed # rest' \<and> strip typed \<noteq> []
           \<and> (\<exists>x \<in> set (split_sep CHR '','' (strip typed)).
                 \<forall>i. py_int (int_max_str_digits rt) (strip x) \<noteq> Inr i)"
  then have ne: "strip line \<noteq> ''6''" by simp
  have g: "get_numeric_columns (at_menu s rest) = (Inr available, s1)" using h by blast
  have st: "stdin (at_menu s rest) = typed # rest'" using h by simp
  note r = select_features_returns [OF g st, of rt]
  have "menu_action rt (strip line) (at_menu s rest)
      = (Inr (), snd (select_features rt (at_menu s rest)))"
    using h r(1) by (simp add: menu_action_def prod_eq_iff)
  then show "main_loop rt s = main_loop rt (snd (select_features rt (at_menu s rest)))"
    by (simp add: main_loop_action [OF assms ne])
  obtain e' where "parse_indices (int_max_str_digits rt) (split_sep CHR '','' (strip typed)) = Inl e'"
    using h parse_indices_Inl by blast
  moreover have "strip typed \<noteq> []" using h by blast
  ultimately show "features (snd (select_features rt (at_menu s rest))) = DEFAULT_FEATURES"
    by (simp add: select_features_features [OF g st])
  show "stdin (snd (select_features rt (at_menu s rest))) = rest'" by (rule r(2))
next
  assume "stdin s0 = l # ls \<and> float_of_str rt l = None"
  then show "read_value rt feat s0 =
      read_value rt feat
        (py_print ''    Please enter a valid number.''
           ((py_print (''    '' @ feat @ '': '') s0)\<lparr>stdin := ls\<rparr>))"
    using read_value_again by blast
next
  show "fst (read_value rt feat s0) \<noteq> Inl ValueError"
    using read_value_raises_eof [of rt feat s0 ValueError] by auto
next
  assume h: "strip line = ''5''"
  then have ne: "strip line \<noteq> ''6''" by simp
  have "menu_action rt (strip line) (at_menu s rest) = (Inr (), load_predictions (at_menu s rest))"
    using h by (simp add: menu_action_def)
  then show "main_loop rt s = main_loop rt (load_predictions (at_menu s rest))"
    by (simp add: main_loop_action [OF assms ne])
next
  assume "files s (data_file s) = None"
  then show "stdout (load_predictions (at_menu s rest))
      = stdout (at_menu s rest)
        @ [banner, ''           PREDICTION HISTORY'', rule60 CHR ''='',
           ''  No predictions recorded yet.'', rule60 CHR ''='']"
    by (simp add: load_predictions_no_file)
qed


lemma get_numeric_columns_first:
  assumes "df s = None" and "read_csv s (csv_path s) = Inr t"
  shows "get_numeric_columns s
           = (Inr (numeric_columns t), s\<lparr>csv_reads := Suc (csv_reads s), df := Some t\<rparr>)"
  using ensure_loaded_first(2) [OF assms] by (simp add: get_numeric_columns_def)

lemma demo_features [simp]: "features (demo inp) = DEFAULT_FEATURES"
  by (simp add: demo_def init_def)

theorem menu_action_failure_witness:
  "fst (main demo_rt no_csv no_files demo_clock [''2'', ''6'']) = Inl FileNotFoundError
   \<and> fst (main fit_fails_rt kc_csv no_files demo_clock [''3'', ''6'']) = Inl ValueError
   \<and> \<not> is_trained (demo [''4'', ''5'', ''6''])
   \<and> fst (main demo_rt kc_csv no_files demo_clock [''4'', ''5'', ''6'']) = Inr ()
   \<and> fst (main demo_rt kc_csv no_files demo_clock [''2'', ''2,abc'', ''6'']) = Inr ()
   \<and> float_of_str demo_rt ''x'' = None
   \<and> fst (read_value demo_rt ''bedrooms'' (demo [''x'', ''3''])) = Inr 3"
proof -
  let ?s0 = "init no_csv no_files demo_clock [''2'', ''6''] :: (int, string list, string list) session"
  have a0: "stdin ?s0 = ''2'' # [''6'']" by simp
  have "df ?s0 = None \<and> read_csv ?s0 (csv_path ?s0) = Inl FileNotFoundError
      \<and> strip ''2'' \<in> {''1'', ''2'', ''3''}"
    by (simp add: no_csv_def strip_choice)
  then have r0: "fst (main_loop demo_rt ?s0) = Inl FileNotFoundError"
    using menu_action_failure [OF a0, of demo_rt FileNotFoundError] by blast

  let ?t = "demo [''3'', ''6'']"
  have at: "stdin ?t = ''3'' # [''6'']" by (simp add: demo_stdin)
  have el: "ensure_loaded (at_menu ?t [''6''])
      = (Inr kc_table, (at_menu ?t [''6''])\<lparr>csv_reads := Suc (csv_reads (at_menu ?t [''6''])),
                                               df := Some kc_table\<rparr>)"
    by (rule ensure_loaded_first(2)) simp_all
  have cols: "set (features ?t) \<subseteq> fst ` set (columns kc_table)"
    "''price'' \<in> fst ` set (columns kc_table)"
    by (simp_all add: DEFAULT_FEATURES_def kc_table_def kc_columns_def)
  have sk: "sk_split fit_fails_rt kc_table (features ?t) = Inr (features ?t, features ?t)"
    "sk_fit fit_fails_rt (features ?t) = Inl ValueError"
    by (simp_all add: fit_fails_rt_def demo_rt_def)
  have rt: "fst (main_loop fit_fails_rt ?t) = Inl ValueError"
    using menu_action_failure [OF at, of fit_fails_rt ValueError _ _ kc_table
        "(at_menu ?t [''6''])\<lparr>csv_reads := Suc (csv_reads (at_menu ?t [''6''])), df := Some kc_table\<rparr>"
        "features ?t" "features ?t"]
      el cols sk strip_choice(3)
    by blast

  let ?s1 = "demo [''4'', ''5'', ''6'']"
  let ?s2 = "py_print (LF # ''  [!] Model is not trained yet. Please train first.'')
               (at_menu ?s1 [''5'', ''6''])"
  let ?s3 = "load_predictions (at_menu ?s2 [''6''])"
  have a1: "stdin ?s1 = ''4'' # [''5'', ''6'']" by (simp add: demo_stdin)
  have u1: "\<not> is_trained ?s1" by (simp add: demo_untrained)
  have e1: "main_loop demo_rt ?s1 = main_loop demo_rt ?s2"
    using menu_action_failure [OF a1, of demo_rt] u1 by (simp add: strip_choice)
  have a2: "stdin ?s2 = ''5'' # [''6'']" by simp
  have e2: "main_loop demo_rt ?s2 = main_loop demo_rt ?s3"
    using menu_action_failure [OF a2, of demo_rt] by (simp add: strip_choice)
  have a3: "stdin ?s3 = ''6'' # []" by simp
  have "fst (main_loop demo_rt ?s3) = Inr ()"
    by (simp add: main_loop_exit [OF a3] strip_choice)
  then have r1: "fst (main_loop demo_rt ?s1) = Inr ()" by (simp add: e1 e2)

  let ?v = "demo [''2'', ''2,abc'', ''6'']"
  let ?w = "snd (select_features demo_rt (at_menu ?v [''2,abc'', ''6'']))"
  have av: "stdin ?v = ''2'' # [''2,abc'', ''6'']" by (simp add: demo_stdin)
  have g: "get_numeric_columns (at_menu ?v [''2,abc'', ''6''])
      = (Inr (numeric_columns kc_table),
         (at_menu ?v [''2,abc'', ''6''])\<lparr>csv_reads := Suc (csv_reads (at_menu ?v [''2,abc'', ''6''])),
                                            df := Some kc_table\<rparr>)"
    by (rule get_numeric_columns_first) simp_all
  have ne: "strip ''2,abc'' \<noteq> []" by code_simp
  have bad: "\<exists>x \<in> set (split_sep CHR '','' (strip ''2,abc'')).
              \<forall>i. py_int (int_max_str_digits demo_rt) (strip x) \<noteq> Inr i"
  proof -
    have "''abc'' \<in> set (split_sep CHR '','' (strip ''2,abc''))" by code_simp
    moreover have "py_int (int_max_str_digits demo_rt) (strip ''abc'') = Inl ValueError"
      unfolding demo_rt_limit by code_simp
    ultimately show ?thesis by (intro bexI [of _ "''abc''"]) simp_all
  qed
  have "main_loop demo_rt ?v = main_loop demo_rt ?w \<and> stdin ?w = [''6'']"
    using menu_action_failure [OF av, of demo_rt _ _ _ _
        "(at_menu ?v [''2,abc'', ''6''])\<lparr>csv_reads := Suc (csv_reads (at_menu ?v [''2,abc'', ''6''])),
                                           df := Some kc_table\<rparr>"
        _ _ "numeric_columns kc_table" "''2,abc''" "[''6'']"]
      g ne bad strip_choice(2)
    by blast
  then have ew: "main_loop demo_rt ?v = main_loop demo_rt ?w" and sw: "stdin ?w = ''6'' # []"
    by simp_all
  have "fst (main_loop demo_rt ?w) = Inr ()"
    by (simp add: main_loop_exit [OF sw] strip_choice)
  then have r2: "fst (main_loop demo_rt ?v) = Inr ()" by (simp add: ew)

  let ?p = "demo [''x'', ''3'']"
  have ap: "stdin ?p = ''x'' # [''3'']" by (simp add: demo_stdin)
  have "read_value demo_rt ''bedrooms'' ?p =
      read_value demo_rt ''bedrooms''
        (py_print ''    Please enter a valid number.''
           ((py_print (''    '' @ ''bedrooms'' @ '': '') ?p)\<lparr>stdin := [''3'']\<rparr>))"
    using menu_action_failure [OF a0, of demo_rt _ _ _ _ _ _ _ _ _ _ ?p "''x''" "[''3'']" "''bedrooms''"]
      ap demo_float(2)
    by blast
  then have r3: "fst (read_value demo_rt ''bedrooms'' ?p) = Inr 3"
    by (simp add: read_value_step demo_float)
  show ?thesis
    using r0 rt u1 r1 r2 r3 demo_float(2) by (simp add: main_def demo_def)
qed

end
